theory Spec2Isabelle
  imports Main
begin

section \<open>Template arguments\<close>

text \<open>
  The facilities of \<^verbatim>\<open>core/utility/plugins/vtable.h\<close> are templates; their state lives in
  static variables, one per template instantiation. A template argument is a class name,
  possibly \<^verbatim>\<open>const\<close>-qualified: \<^verbatim>\<open>GetTag\<close> names its holder \<^verbatim>\<open>STagHolder<const DERIVED, const BASE>\<close>
  but its counter \<^verbatim>\<open>STagCounter<BASE>\<close>, so the qualifier is part of the model.
  Adding \<^verbatim>\<open>const\<close> to an argument that is already \<^verbatim>\<open>const\<close> changes nothing.
\<close>

datatype cpptype = Plain string | Const string

fun add_const :: "cpptype \<Rightarrow> cpptype" where
  "add_const (Plain n) = Const n"
| "add_const (Const n) = Const n"

section \<open>Tags\<close>

text \<open>
  \<^verbatim>\<open>STagCounter<BASE>::Count\<close> and \<^verbatim>\<open>STagHolder<DERIVED, BASE>::Tag\<close> are static \<^verbatim>\<open>size_t\<close>
  variables, zero before any dynamic initialisation. They are modelled as natural numbers:
  a counter is incremented only by a call that finds a holder at zero and leaves it
  non-zero, every holder is a static object of its own, and a process has far fewer than
  \<open>2 ^ 64\<close> static objects, so that neither \<^verbatim>\<open>++Count\<close> nor \<^verbatim>\<open>unIndex+1\<close> can wrap.
\<close>

record tag_state =
  Count :: "cpptype \<Rightarrow> nat"
  Tag :: "cpptype \<times> cpptype \<Rightarrow> nat"

definition init_tags :: tag_state where
  "init_tags = \<lparr>Count = (\<lambda>b. 0), Tag = (\<lambda>h. 0)\<rparr>"

text \<open>\<^verbatim>\<open>GetTag<DERIVED, BASE>()\<close>: the returned tag and the new state.\<close>

definition GetTag :: "cpptype \<Rightarrow> cpptype \<Rightarrow> tag_state \<Rightarrow> nat \<times> tag_state" where
  "GetTag DERIVED BASE s =
     (let h = (add_const DERIVED, add_const BASE) in
      if Tag s h = 0
      then (let c = Count s BASE + 1 in
            (c, s\<lparr>Count := (Count s)(BASE := c), Tag := (Tag s)(h := c)\<rparr>))
      else (Tag s h, s))"

text \<open>
  The dynamic initialiser of a holder,
  \<^verbatim>\<open>size_t STagHolder<DERIVED, BASE>::Tag = GetTag<DERIVED, BASE>();\<close>
  It runs once for every holder the program instantiates, at a moment of static
  initialisation the language leaves open. \<^verbatim>\<open>GetTag\<close> instantiates holders with
  \<^verbatim>\<open>const\<close> arguments only, so here \<open>DERIVED\<close> and \<open>BASE\<close> are \<^verbatim>\<open>const\<close> types.
\<close>

definition STagHolder_init :: "cpptype \<Rightarrow> cpptype \<Rightarrow> tag_state \<Rightarrow> tag_state" where
  "STagHolder_init DERIVED BASE s =
     (let (t, s') = GetTag DERIVED BASE s in s'\<lparr>Tag := (Tag s')((DERIVED, BASE) := t)\<rparr>)"

text \<open>A run of \<^verbatim>\<open>GetTag<DERIVED, BASE>()\<close> calls for one root, in the order given.\<close>

fun GetTag_all :: "cpptype list \<Rightarrow> cpptype \<Rightarrow> tag_state \<Rightarrow> tag_state" where
  "GetTag_all [] BASE s = s"
| "GetTag_all (d # ds) BASE s = GetTag_all ds BASE (snd (GetTag d BASE s))"




section \<open>Callables and operation instances\<close>

text \<open>
  A slot of the vtable holds a pointer to member function
  \<^verbatim>\<open>RETURN_VALUE (COperation<CONTEXT, BASE, RETURN_VALUE>::*)(BASE&)\<close>: either null
  (\<open>None\<close>) or \<^verbatim>\<open>&OPERATION::Hook<DERIVED, OPERATION>\<close>, which is determined by the two
  classes it casts to. A slot of the instance holder is a pointer to an operation object:
  null, or an object made by \<^verbatim>\<open>new OPERATION()\<close>, known by its class \<open>'op\<close>.
\<close>

datatype 'op callable = Hook cpptype 'op

text \<open>
  What C++ leaves undefined is a value of the model: a read of a \<^verbatim>\<open>std::vector\<close> beyond
  its size, a call through a null member pointer or on a null object, and a
  \<^verbatim>\<open>static_cast\<close> to a class the object does not have.
\<close>

datatype undefined_behaviour = OutOfRangeRead | NullCall | BadCast

text \<open>\<^verbatim>\<open>std::vector::resize(n, v)\<close>.\<close>

definition resize :: "nat \<Rightarrow> 'a \<Rightarrow> 'a list \<Rightarrow> 'a list" where
  "resize n v xs = (if n \<le> length xs then take n xs else xs @ replicate (n - length xs) v)"

section \<open>The vtable\<close>

text \<open>
  \<^verbatim>\<open>CVTable<CONTEXT, BASE, FUNCTION>::Add<DERIVED>(t_function)\<close>, on the tag state and
  \<^verbatim>\<open>m_vecVTable\<close>. The tag of \<open>BASE\<close> is asked for only when the table grows.
\<close>

definition CVTable_Add ::
  "cpptype \<Rightarrow> cpptype \<Rightarrow> 'f option \<Rightarrow> tag_state \<times> 'f option list \<Rightarrow> tag_state \<times> 'f option list" where
  "CVTable_Add DERIVED BASE t_function st =
     (let m_vecVTable = snd st;
          (unIndex, s1) = GetTag DERIVED BASE (fst st) in
      if unIndex \<ge> length m_vecVTable
      then (let (unBaseTag, s2) = GetTag BASE BASE s1;
                tDefaultFunction =
                  (if unBaseTag < length m_vecVTable then m_vecVTable ! unBaseTag else None)
            in (s2, (resize (unIndex + 1) tDefaultFunction m_vecVTable)[unIndex := t_function]))
      else (s1, m_vecVTable[unIndex := t_function]))"

text \<open>
  \<^verbatim>\<open>CVTable::operator[](un_index)\<close>. The index is replaced by the tag of \<open>BASE\<close> when it is
  beyond the table; the read that follows is not guarded.
\<close>

definition CVTable_index ::
  "cpptype \<Rightarrow> nat \<Rightarrow> tag_state \<times> 'f option list \<Rightarrow> undefined_behaviour + ('f option \<times> tag_state)" where
  "CVTable_index BASE un_index st =
     (let m_vecVTable = snd st;
          (i, s1) = (if un_index \<ge> length m_vecVTable then GetTag BASE BASE (fst st)
                     else (un_index, fst st)) in
      if i < length m_vecVTable then Inr (m_vecVTable ! i, s1) else Inl OutOfRangeRead)"

section \<open>The operation instance holder\<close>

text \<open>\<^verbatim>\<open>COperationInstanceHolder<CONTEXT, BASE, RETURN_TYPE>::Add<DERIVED>(pc_operation)\<close>.\<close>

definition Holder_Add ::
  "cpptype \<Rightarrow> cpptype \<Rightarrow> 'i option \<Rightarrow> tag_state \<times> 'i option list \<Rightarrow> tag_state \<times> 'i option list" where
  "Holder_Add DERIVED BASE pc_operation st =
     (let m_vecOperationInstances = snd st;
          (unIndex, s1) = GetTag DERIVED BASE (fst st) in
      if unIndex \<ge> length m_vecOperationInstances
      then (s1, (resize (unIndex + 1) None m_vecOperationInstances)[unIndex := pc_operation])
      else (s1, m_vecOperationInstances[unIndex := pc_operation]))"

text \<open>\<^verbatim>\<open>COperationInstanceHolder::operator[](un_index)\<close>.\<close>

definition Holder_index :: "nat \<Rightarrow> 'i option list \<Rightarrow> 'i option" where
  "Holder_index un_index m_vecOperationInstances =
     (if un_index \<ge> length m_vecOperationInstances then None
      else m_vecOperationInstances ! un_index)"

section \<open>The process state, registration and dispatch\<close>

text \<open>
  \<^verbatim>\<open>GetVTable<CONTEXT, BASE, FUNCTION>()\<close> and
  \<^verbatim>\<open>GetOperationInstanceHolder<CONTEXT, BASE, RETURN_VALUE>()\<close> return function-local statics,
  one per instantiation and empty at first. \<open>FUNCTION\<close> is fixed by the context, the root
  and the return type, so both are keyed by that triple; the tags are shared by every
  table of a root.
\<close>

type_synonym key = "string \<times> cpptype \<times> string"

record 'op world =
  tagst :: tag_state
  vtables :: "key \<Rightarrow> 'op callable option list"
  holders :: "key \<Rightarrow> 'op option list"

definition init_world :: "'op world" where
  "init_world = \<lparr>tagst = init_tags, vtables = (\<lambda>k. []), holders = (\<lambda>k. [])\<rparr>"

text \<open>
  The constructor of the object that \<^verbatim>\<open>REGISTER_OPERATION(CONTEXT, BASE, OPERATION,
  RETURN_VALUE, DERIVED)\<close> declares: first the vtable, then the instance holder.
\<close>

definition REGISTER_OPERATION ::
  "string \<Rightarrow> cpptype \<Rightarrow> 'op \<Rightarrow> string \<Rightarrow> cpptype \<Rightarrow> 'op world \<Rightarrow> 'op world" where
  "REGISTER_OPERATION CONTEXT BASE OPERATION RETURN_VALUE DERIVED w =
     (let k = (CONTEXT, BASE, RETURN_VALUE);
          (s1, vt) = CVTable_Add DERIVED BASE (Some (Hook DERIVED OPERATION)) (tagst w, vtables w k);
          (s2, ih) = Holder_Add DERIVED BASE (Some OPERATION) (s1, holders w k)
      in w\<lparr>tagst := s2, vtables := (vtables w)(k := vt), holders := (holders w)(k := ih)\<rparr>)"

text \<open>A registration as data, and a run of registrations in the order given.\<close>

datatype 'op registration = Registration string cpptype 'op string cpptype

fun register :: "'op registration \<Rightarrow> 'op world \<Rightarrow> 'op world" where
  "register (Registration CONTEXT BASE OPERATION RETURN_VALUE DERIVED) w =
     REGISTER_OPERATION CONTEXT BASE OPERATION RETURN_VALUE DERIVED w"

fun register_all :: "'op registration list \<Rightarrow> 'op world \<Rightarrow> 'op world" where
  "register_all [] w = w"
| "register_all (r # rs) w = register_all rs (register r w)"

text \<open>
  An operand is known by the class it was created as. Every class of the hierarchy carries
  \<^verbatim>\<open>ENABLE_VTABLE()\<close>, so its virtual \<^verbatim>\<open>GetTag()\<close> is \<^verbatim>\<open>GetTag<DERIVED, BASE>()\<close> for its
  own class; the root derives from \<^verbatim>\<open>EnableVTableFor<BASE>\<close>.
\<close>

record operand =
  cls :: cpptype
  m_strId :: string

text \<open>
  \<^verbatim>\<open>(pcOperation->*tFunction)(t_base)\<close>, that is \<^verbatim>\<open>COperation::Hook\<close> and \<^verbatim>\<open>Dispatch\<close>: the
  operation object is cast to \<open>OPERATION_IMPL\<close>, the operand to \<open>DERIVED\<close>, and
  \<^verbatim>\<open>ApplyTo\<close> of the operation runs. The per-class logic is the parameter \<open>ApplyTo\<close>; what it
  prints is not modelled. The hierarchy is taken flat, as in \<^verbatim>\<open>testing.cpp\<close>: an operand
  can be cast to its own class and to the root.
\<close>

definition Hook_call ::
  "('op \<Rightarrow> operand \<Rightarrow> 'r) \<Rightarrow> cpptype \<Rightarrow> 'op callable option \<Rightarrow> 'op option \<Rightarrow> operand \<Rightarrow>
   undefined_behaviour + 'r" where
  "Hook_call ApplyTo BASE tFunction pcOperation t_base =
     (case tFunction of
        None \<Rightarrow> Inl NullCall
      | Some (Hook DERIVED OPERATION_IMPL) \<Rightarrow>
          (case pcOperation of
             None \<Rightarrow> Inl NullCall
           | Some this \<Rightarrow>
               if this \<noteq> OPERATION_IMPL then Inl BadCast
               else if cls t_base \<noteq> DERIVED \<and> DERIVED \<noteq> BASE then Inl BadCast
               else Inr (ApplyTo OPERATION_IMPL t_base)))"

text \<open>\<^verbatim>\<open>CallOperation<CONTEXT, BASE, RETURN_VALUE>(t_base)\<close>: the result and the new state.\<close>

definition CallOperation ::
  "('op \<Rightarrow> operand \<Rightarrow> 'r) \<Rightarrow> string \<Rightarrow> cpptype \<Rightarrow> string \<Rightarrow> operand \<Rightarrow> 'op world \<Rightarrow>
   undefined_behaviour + ('r \<times> 'op world)" where
  "CallOperation ApplyTo CONTEXT BASE RETURN_VALUE t_base w =
     (let k = (CONTEXT, BASE, RETURN_VALUE);
          (tag1, s1) = GetTag (cls t_base) BASE (tagst w) in
      case CVTable_index BASE tag1 (s1, vtables w k) of
        Inl e \<Rightarrow> Inl e
      | Inr (tFunction, s2) \<Rightarrow>
          (let (tag2, s3) = GetTag (cls t_base) BASE s2;
               pcOperation = Holder_index tag2 (holders w k) in
           case Hook_call ApplyTo BASE tFunction pcOperation t_base of
             Inl e \<Rightarrow> Inl e
           | Inr r \<Rightarrow> Inr (r, w\<lparr>tagst := s3\<rparr>)))"

section \<open>The test program\<close>

text \<open>
  \<^verbatim>\<open>core/simulator/extra/testing.cpp\<close>: the context \<^verbatim>\<open>Testing\<close>, the root \<^verbatim>\<open>CEntity\<close>, two
  entity classes, and one operation class for each with its \<^verbatim>\<open>ApplyTo\<close>.
\<close>

datatype test_operation = CTestOperationOnTestEntity1 | CTestOperationOnTestEntity2

fun test_ApplyTo :: "test_operation \<Rightarrow> operand \<Rightarrow> int" where
  "test_ApplyTo CTestOperationOnTestEntity1 c_entity = 1"
| "test_ApplyTo CTestOperationOnTestEntity2 c_entity = 2"

definition test_registered1 :: "test_operation world" where
  "test_registered1 =
     REGISTER_OPERATION ''Testing'' (Plain ''CEntity'') CTestOperationOnTestEntity1 ''int''
       (Plain ''CTestEntity1'') init_world"

definition test_registered :: "test_operation world" where
  "test_registered =
     REGISTER_OPERATION ''Testing'' (Plain ''CEntity'') CTestOperationOnTestEntity2 ''int''
       (Plain ''CTestEntity2'') test_registered1"

definition e1 :: operand where
  "e1 = \<lparr>cls = Plain ''CTestEntity1'', m_strId = ''CTestEntity1''\<rparr>"

definition e2 :: operand where
  "e2 = \<lparr>cls = Plain ''CTestEntity2'', m_strId = ''CTestEntity2''\<rparr>"

text \<open>An entity of a third class, for which \<^verbatim>\<open>testing.cpp\<close> registers nothing.\<close>

definition e3 :: operand where
  "e3 = \<lparr>cls = Plain ''CTestEntity3'', m_strId = ''CTestEntity3''\<rparr>"

text \<open>
  The same program when the dynamic initialiser of the holder of \<^verbatim>\<open>CTestEntity2\<close> has run
  before the two registration objects are constructed.
\<close>

definition holder_initialised_first :: "test_operation world" where
  "holder_initialised_first =
     init_world\<lparr>tagst := STagHolder_init (Const ''CTestEntity2'') (Const ''CEntity'') init_tags\<rparr>"

definition test_registered_late :: "test_operation world" where
  "test_registered_late =
     REGISTER_OPERATION ''Testing'' (Plain ''CEntity'') CTestOperationOnTestEntity2 ''int''
       (Plain ''CTestEntity2'')
       (REGISTER_OPERATION ''Testing'' (Plain ''CEntity'') CTestOperationOnTestEntity1 ''int''
          (Plain ''CTestEntity1'') holder_initialised_first)"

section \<open>Notions used in the statements\<close>

text \<open>
  The tags of a root are in order when every holder of the root's hierarchy is at most the
  root's counter and no two holders share a non-zero tag. This holds before any tag is
  assigned, and every \<^verbatim>\<open>GetTag<DERIVED, BASE>()\<close> with this very \<open>BASE\<close> keeps it.
\<close>

definition tags_ok :: "tag_state \<Rightarrow> cpptype \<Rightarrow> bool" where
  "tags_ok s BASE \<longleftrightarrow>
     (\<forall>d. Tag s (d, add_const BASE) \<le> Count s BASE) \<and>
     (\<forall>d d'. Tag s (d, add_const BASE) \<noteq> 0 \<and> Tag s (d, add_const BASE) = Tag s (d', add_const BASE)
        \<longrightarrow> d = d')"

text \<open>
  What both \<^verbatim>\<open>Add\<close> functions do to their vector once the index is known: grow to
  \<open>t + 1\<close> with the filler \<open>v\<close> when \<open>t\<close> is beyond the size, then write at \<open>t\<close>.
\<close>

definition vput :: "nat \<Rightarrow> 'a \<Rightarrow> 'a \<Rightarrow> 'a list \<Rightarrow> 'a list" where
  "vput t v x xs = (if length xs \<le> t then resize (t + 1) v xs else xs)[t := x]"

text \<open>
  A tag state for examples: the root \<^verbatim>\<open>CEntity\<close> was asked for its tag first, then
  \<^verbatim>\<open>CTestEntity1\<close>.
\<close>

definition tags_root_first :: tag_state where
  "tags_root_first =
     snd (GetTag (Plain ''CTestEntity1'') (Plain ''CEntity'')
       (snd (GetTag (Plain ''CEntity'') (Plain ''CEntity'') init_tags)))"

text \<open>A run of \<^verbatim>\<open>Add\<close> calls on one vtable, in the order given.\<close>

fun CVTable_Add_all ::
  "cpptype \<Rightarrow> (cpptype \<times> 'f option) list \<Rightarrow> tag_state \<times> 'f option list \<Rightarrow> tag_state \<times> 'f option list" where
  "CVTable_Add_all BASE [] st = st"
| "CVTable_Add_all BASE (a # as) st = CVTable_Add_all BASE as (CVTable_Add (fst a) BASE (snd a) st)"

section \<open>A hierarchy with a handler for the root\<close>

text \<open>
  A hierarchy in the manner of the header's documentation, with an operation for the root
  itself: classes
  \<^verbatim>\<open>D\<close>, \<^verbatim>\<open>E\<close> and \<^verbatim>\<open>C\<close> under the root \<^verbatim>\<open>Base\<close>, an operation on \<^verbatim>\<open>Base\<close> returning 0, one on
  \<^verbatim>\<open>D\<close> returning 1 and one on \<^verbatim>\<open>E\<close> returning 2.
\<close>

datatype example_operation = OpOnBase | OpOnD | OpOnE

fun example_ApplyTo :: "example_operation \<Rightarrow> operand \<Rightarrow> int" where
  "example_ApplyTo OpOnBase x = 0"
| "example_ApplyTo OpOnD x = 1"
| "example_ApplyTo OpOnE x = 2"

definition root_registered :: "example_operation world" where
  "root_registered =
     REGISTER_OPERATION ''Ctx'' (Plain ''Base'') OpOnBase ''int'' (Plain ''Base'') init_world"

definition operand_c :: operand where
  "operand_c = \<lparr>cls = Plain ''C'', m_strId = ''c''\<rparr>"

text \<open>
  Three registrations under two contexts of the same root: the root's handler under
  \<^verbatim>\<open>Ctx\<close>, then \<^verbatim>\<open>D\<close> under \<^verbatim>\<open>Ctx2\<close>, then \<^verbatim>\<open>E\<close> under \<^verbatim>\<open>Ctx\<close>.
\<close>

definition two_contexts :: "example_operation world" where
  "two_contexts =
     register_all
       [Registration ''Ctx'' (Plain ''Base'') OpOnBase ''int'' (Plain ''Base''),
        Registration ''Ctx2'' (Plain ''Base'') OpOnD ''int'' (Plain ''D''),
        Registration ''Ctx'' (Plain ''Base'') OpOnE ''int'' (Plain ''E'')]
       init_world"

text \<open>
  The holders of \<^verbatim>\<open>Base\<close> and \<^verbatim>\<open>C\<close> initialised first, then the root's handler registered,
  then the handler of \<^verbatim>\<open>D\<close>, all under \<^verbatim>\<open>Ctx\<close>.
\<close>

definition holders_of_root_and_c_initialised :: "example_operation world" where
  "holders_of_root_and_c_initialised =
     init_world\<lparr>tagst := STagHolder_init (Const ''C'') (Const ''Base'')
                           (STagHolder_init (Const ''Base'') (Const ''Base'') init_tags)\<rparr>"

definition root_then_d :: "example_operation world" where
  "root_then_d =
     REGISTER_OPERATION ''Ctx'' (Plain ''Base'') OpOnD ''int'' (Plain ''D'')
       (REGISTER_OPERATION ''Ctx'' (Plain ''Base'') OpOnBase ''int'' (Plain ''Base'')
          holders_of_root_and_c_initialised)"

text \<open>
  The vtable and the instance holder of every triple are paired when they have the same
  size and every slot with an instance has a callable. A registration is filled when, at the
  tag of its class, both its vtable and its instance holder have a non-null slot.
\<close>

definition paired :: "'op world \<Rightarrow> bool" where
  "paired w \<longleftrightarrow>
     (\<forall>k. length (vtables w k) = length (holders w k) \<and>
          (\<forall>t. t < length (holders w k) \<and> holders w k ! t \<noteq> None \<longrightarrow> vtables w k ! t \<noteq> None))"

definition filled :: "'op registration \<Rightarrow> 'op world \<Rightarrow> bool" where
  "filled r w \<longleftrightarrow>
     (case r of Registration CONTEXT BASE OPERATION RETURN_VALUE DERIVED \<Rightarrow>
        Tag (tagst w) (add_const DERIVED, add_const BASE) \<noteq> 0 \<and>
        Tag (tagst w) (add_const DERIVED, add_const BASE) < length (vtables w (CONTEXT, BASE, RETURN_VALUE)) \<and>
        vtables w (CONTEXT, BASE, RETURN_VALUE) ! Tag (tagst w) (add_const DERIVED, add_const BASE) \<noteq> None \<and>
        holders w (CONTEXT, BASE, RETURN_VALUE) ! Tag (tagst w) (add_const DERIVED, add_const BASE) \<noteq> None)"

text \<open>
  A vtable inherits the root's callable \<open>h\<close> from size \<open>n\<close> on when the tags of the root are in
  order, the root has the tag \<open>r\<close> and the slot \<open>r\<close> holds \<open>h\<close>, and every slot from \<open>n\<close> on
  holds \<open>h\<close> or is at the tag of one of the classes \<open>D\<close>.
\<close>

definition inherits ::
  "cpptype \<Rightarrow> nat \<Rightarrow> 'f \<Rightarrow> nat \<Rightarrow> cpptype set \<Rightarrow> tag_state \<times> 'f option list \<Rightarrow> bool" where
  "inherits BASE r h n D st \<longleftrightarrow>
     tags_ok (fst st) BASE \<and>
     Tag (fst st) (add_const BASE, add_const BASE) = r \<and> r \<noteq> 0 \<and>
     r < length (snd st) \<and> snd st ! r = Some h \<and> 0 < n \<and> n \<le> length (snd st) \<and>
     (\<forall>i. n \<le> i \<and> i < length (snd st) \<longrightarrow>
        snd st ! i = Some h \<or> (\<exists>d\<in>D. Tag (fst st) (add_const d, add_const BASE) = i))"


text \<open>A tag state for examples: \<^verbatim>\<open>CEntity\<close>, \<^verbatim>\<open>CTestEntity1\<close> and \<^verbatim>\<open>CTestEntity2\<close>, in this order.\<close>

definition tags_three :: tag_state where
  "tags_three = snd (GetTag (Plain ''CTestEntity2'') (Plain ''CEntity'') tags_root_first)"


text \<open>An operand of class \<^verbatim>\<open>D\<close>.\<close>

definition operand_d :: operand where
  "operand_d = \<lparr>cls = Plain ''D'', m_strId = ''d''\<rparr>"

section \<open>The tag assigner\<close>

lemma GetTag_unassigned:
  "Tag s (add_const DERIVED, add_const BASE) = 0 \<Longrightarrow>
   GetTag DERIVED BASE s =
     (Count s BASE + 1,
      s\<lparr>Count := (Count s)(BASE := Count s BASE + 1),
        Tag := (Tag s)((add_const DERIVED, add_const BASE) := Count s BASE + 1)\<rparr>)"
  by (simp add: GetTag_def Let_def)

lemma GetTag_assigned:
  "Tag s (add_const DERIVED, add_const BASE) \<noteq> 0 \<Longrightarrow>
   GetTag DERIVED BASE s = (Tag s (add_const DERIVED, add_const BASE), s)"
  by (simp add: GetTag_def Let_def)

lemma GetTag_stores:
  "Tag (snd (GetTag DERIVED BASE s)) (add_const DERIVED, add_const BASE) = fst (GetTag DERIVED BASE s)"
  by (simp add: GetTag_def Let_def)

lemma GetTag_pos: "0 < fst (GetTag DERIVED BASE s)"
  by (simp add: GetTag_def Let_def)

lemma GetTag_again:
  "GetTag DERIVED BASE (snd (GetTag DERIVED BASE s)) =
     (fst (GetTag DERIVED BASE s), snd (GetTag DERIVED BASE s))"
  using GetTag_pos [of DERIVED BASE s] GetTag_stores [of DERIVED BASE s]
  by (simp add: GetTag_assigned)

section \<open>Vectors, tables and tags: auxiliary facts\<close>

lemma length_resize: "length (resize n v xs) = n"
  by (simp add: resize_def)

lemma resize_nth_old: "i < length xs \<Longrightarrow> i < n \<Longrightarrow> resize n v xs ! i = xs ! i"
  by (simp add: resize_def nth_append)

lemma resize_nth_new: "length xs \<le> i \<Longrightarrow> i < n \<Longrightarrow> resize n v xs ! i = v"
  by (simp add: resize_def nth_append)

lemma length_vput: "length (vput t v x xs) = max (length xs) (t + 1)"
  by (simp add: vput_def length_resize)

lemma vput_nth_same: "vput t v x xs ! t = x"
  by (simp add: vput_def length_resize)

lemma vput_nth_old: "i < length xs \<Longrightarrow> i \<noteq> t \<Longrightarrow> vput t v x xs ! i = xs ! i"
  by (simp add: vput_def resize_nth_old)

lemma vput_nth_new: "length xs \<le> i \<Longrightarrow> i < t \<Longrightarrow> vput t v x xs ! i = v"
  by (simp add: vput_def resize_nth_new)

lemma GetTag_fst:
  "fst (GetTag DERIVED BASE s) =
     (if Tag s (add_const DERIVED, add_const BASE) = 0 then Count s BASE + 1
      else Tag s (add_const DERIVED, add_const BASE))"
  by (simp add: GetTag_def Let_def)

lemma GetTag_Tag:
  "Tag (snd (GetTag DERIVED BASE s)) h =
     (if h = (add_const DERIVED, add_const BASE) then fst (GetTag DERIVED BASE s) else Tag s h)"
  by (simp add: GetTag_def Let_def)

lemma GetTag_Count:
  "Count (snd (GetTag DERIVED BASE s)) b =
     (if b = BASE \<and> Tag s (add_const DERIVED, add_const BASE) = 0 then Count s BASE + 1
      else Count s b)"
  by (simp add: GetTag_def Let_def)

lemma GetTag_keeps:
  "Tag s h \<noteq> 0 \<Longrightarrow> Tag (snd (GetTag DERIVED BASE s)) h = Tag s h"
  by (auto simp add: GetTag_Tag GetTag_fst)

lemma GetTag_known:
  "Tag s (add_const DERIVED, add_const BASE) = t \<Longrightarrow> t \<noteq> 0 \<Longrightarrow> GetTag DERIVED BASE s = (t, s)"
  by (simp add: GetTag_def Let_def)

lemma tags_ok_GetTag:
  assumes "tags_ok s BASE"
  shows "tags_ok (snd (GetTag DERIVED BASE s)) BASE"
proof (cases "Tag s (add_const DERIVED, add_const BASE) = 0")
  case False
  then show ?thesis using assms by (simp add: GetTag_assigned)
next
  case True
  have le: "\<And>d. Tag s (d, add_const BASE) \<le> Count s BASE"
    using assms by (simp add: tags_ok_def)
  have inj: "\<And>d d'. Tag s (d, add_const BASE) \<noteq> 0 \<Longrightarrow>
      Tag s (d, add_const BASE) = Tag s (d', add_const BASE) \<Longrightarrow> d = d'"
    using assms unfolding tags_ok_def by blast
  have ne: "\<And>d. Tag s (d, add_const BASE) \<noteq> Suc (Count s BASE)"
    using le by (metis Suc_n_not_le_n)
  show ?thesis
    unfolding tags_ok_def
  proof (intro conjI allI impI)
    fix d
    show "Tag (snd (GetTag DERIVED BASE s)) (d, add_const BASE) \<le> Count (snd (GetTag DERIVED BASE s)) BASE"
      using True le [of d] by (simp add: GetTag_unassigned)
  next
    fix d d'
    assume "Tag (snd (GetTag DERIVED BASE s)) (d, add_const BASE) \<noteq> 0 \<and>
       Tag (snd (GetTag DERIVED BASE s)) (d, add_const BASE) =
       Tag (snd (GetTag DERIVED BASE s)) (d', add_const BASE)"
    then show "d = d'"
      using True ne [of d] ne [of d'] inj [of d d']
      by (auto simp add: GetTag_unassigned split: if_splits)
  qed
qed

lemma tags_ok_init: "tags_ok init_tags BASE"
  by (simp add: tags_ok_def init_tags_def)

lemma tags_ok_distinct:
  "tags_ok s BASE \<Longrightarrow> Tag s (d, add_const BASE) \<noteq> 0 \<Longrightarrow> d \<noteq> d' \<Longrightarrow>
   Tag s (d, add_const BASE) \<noteq> Tag s (d', add_const BASE)"
  unfolding tags_ok_def by blast


lemma CVTable_Add_vec:
  "snd (CVTable_Add DERIVED BASE f (s, vec)) =
     vput (fst (GetTag DERIVED BASE s))
       (if fst (GetTag BASE BASE (snd (GetTag DERIVED BASE s))) < length vec
        then vec ! fst (GetTag BASE BASE (snd (GetTag DERIVED BASE s))) else None) f vec"
  by (simp add: CVTable_Add_def vput_def Let_def split_beta)

lemma CVTable_Add_state:
  "fst (CVTable_Add DERIVED BASE f (s, vec)) =
     (if length vec \<le> fst (GetTag DERIVED BASE s)
      then snd (GetTag BASE BASE (snd (GetTag DERIVED BASE s)))
      else snd (GetTag DERIVED BASE s))"
  by (simp add: CVTable_Add_def Let_def split_beta)

lemma Holder_Add_vec:
  "snd (Holder_Add DERIVED BASE p (s, vec)) = vput (fst (GetTag DERIVED BASE s)) None p vec"
  by (simp add: Holder_Add_def vput_def Let_def split_beta)

lemma Holder_Add_state:
  "fst (Holder_Add DERIVED BASE p (s, vec)) = snd (GetTag DERIVED BASE s)"
  by (simp add: Holder_Add_def Let_def split_beta)

lemma CVTable_Add_Tag:
  "Tag (fst (CVTable_Add DERIVED BASE f (s, vec))) (add_const DERIVED, add_const BASE) =
     fst (GetTag DERIVED BASE s)"
  using GetTag_pos [of DERIVED BASE s]
  by (simp add: CVTable_Add_state GetTag_keeps GetTag_stores)

lemma CVTable_Add_keeps:
  "Tag s h \<noteq> 0 \<Longrightarrow> Tag (fst (CVTable_Add DERIVED BASE f (s, vec))) h = Tag s h"
  by (simp add: CVTable_Add_state GetTag_keeps)

lemma tags_ok_CVTable_Add:
  "tags_ok s BASE \<Longrightarrow> tags_ok (fst (CVTable_Add DERIVED BASE f (s, vec))) BASE"
  by (simp add: CVTable_Add_state tags_ok_GetTag)

lemma CVTable_index_inside:
  "i < length vec \<Longrightarrow> CVTable_index BASE i (s, vec) = Inr (vec ! i, s)"
  by (simp add: CVTable_index_def)

lemma CVTable_index_outside:
  "length vec \<le> i \<Longrightarrow>
   CVTable_index BASE i (s, vec) =
     (if fst (GetTag BASE BASE s) < length vec
      then Inr (vec ! fst (GetTag BASE BASE s), snd (GetTag BASE BASE s))
      else Inl OutOfRangeRead)"
  by (simp add: CVTable_index_def split_beta)


section \<open>Claims on the tag assigner\<close>








lemma CVTable_Add_twice:
  "CVTable_Add DERIVED BASE g (CVTable_Add DERIVED BASE f (s, vec)) =
     (fst (CVTable_Add DERIVED BASE f (s, vec)),
      (snd (CVTable_Add DERIVED BASE f (s, vec)))[fst (GetTag DERIVED BASE s) := g])"
proof -
  let ?st = "CVTable_Add DERIVED BASE f (s, vec)"
  let ?t = "fst (GetTag DERIVED BASE s)"
  have tag: "GetTag DERIVED BASE (fst ?st) = (?t, fst ?st)"
    using GetTag_pos [of DERIVED BASE s] by (intro GetTag_known) (simp_all add: CVTable_Add_Tag)
  have len: "?t < length (snd ?st)"
    by (simp add: CVTable_Add_vec length_vput)
  show ?thesis
    using tag len by (simp add: CVTable_Add_def [of DERIVED BASE g ?st] Let_def)
qed

section \<open>Claims on the dispatch table\<close>

text \<open>
  C5. For every table, tag state and class: \<open>Add\<close> at the tag \<open>t\<close> of the class grows the
  table to \<open>t + 1\<close> slots when \<open>t\<close> is not below its size, each new slot below \<open>t\<close> holding the
  callable stored at the tag \<open>r\<close> of the root at that moment, or null when the root has no
  slot; it then stores the callable at \<open>t\<close>, whatever was there, and leaves every other old
  slot as it was. After \<open>Add\<close> of \<open>f\<close> and then of \<open>g\<close> for the same class, the table read at
  \<open>t\<close> yields \<open>g\<close>.
\<close>

theorem CVTable_Add_put:
  assumes "t = fst (GetTag DERIVED BASE s)"
    and "r = fst (GetTag BASE BASE (snd (GetTag DERIVED BASE s)))"
    and "vec' = snd (CVTable_Add DERIVED BASE f (s, vec))"
  shows "length vec' = max (length vec) (t + 1) \<and>
         (\<forall>i. length vec \<le> i \<and> i < t \<longrightarrow> vec' ! i = (if r < length vec then vec ! r else None)) \<and>
         vec' ! t = f \<and>
         (\<forall>i. i < length vec \<and> i \<noteq> t \<longrightarrow> vec' ! i = vec ! i) \<and>
         CVTable_index BASE t (CVTable_Add DERIVED BASE g (CVTable_Add DERIVED BASE f (s, vec))) =
           Inr (g, fst (CVTable_Add DERIVED BASE g (CVTable_Add DERIVED BASE f (s, vec))))"
proof -
  have v: "vec' = vput t (if r < length vec then vec ! r else None) f vec"
    using assms by (simp add: CVTable_Add_vec)
  have len: "t < length vec'"
    by (simp add: v length_vput)
  have "CVTable_index BASE t (CVTable_Add DERIVED BASE g (CVTable_Add DERIVED BASE f (s, vec))) =
          Inr (g, fst (CVTable_Add DERIVED BASE g (CVTable_Add DERIVED BASE f (s, vec))))"
    using len assms(1,3) by (simp add: CVTable_Add_twice CVTable_index_inside)
  then show ?thesis
    by (simp add: v length_vput vput_nth_same vput_nth_old vput_nth_new)
qed


lemma tags_root_first_eval:
  "tags_root_first =
     \<lparr>Count = (\<lambda>b. 0)(Plain ''CEntity'' := 2),
      Tag = (\<lambda>h. 0)((Const ''CEntity'', Const ''CEntity'') := 1,
                     (Const ''CTestEntity1'', Const ''CEntity'') := 2)\<rparr>"
  by (simp add: tags_root_first_def GetTag_def init_tags_def Let_def numeral_2_eq_2)

theorem CVTable_Add_put_witness:
  "3 = fst (GetTag (Plain ''CTestEntity2'') (Plain ''CEntity'') tags_root_first) \<and>
   1 = fst (GetTag (Plain ''CEntity'') (Plain ''CEntity'')
         (snd (GetTag (Plain ''CTestEntity2'') (Plain ''CEntity'') tags_root_first))) \<and>
   length (snd (CVTable_Add (Plain ''CTestEntity2'') (Plain ''CEntity'') (Some (8::nat))
      (tags_root_first, [None, Some 7]))) = 4 \<and>
   snd (CVTable_Add (Plain ''CTestEntity2'') (Plain ''CEntity'') (Some (8::nat))
      (tags_root_first, [None, Some 7])) ! 2 = Some 7 \<and>
   snd (CVTable_Add (Plain ''CTestEntity2'') (Plain ''CEntity'') (Some (8::nat))
      (tags_root_first, [None, Some 7])) ! 3 = Some 8 \<and>
   snd (CVTable_Add (Plain ''CTestEntity2'') (Plain ''CEntity'') (Some (8::nat))
      (tags_root_first, [None, Some 7])) ! 1 = Some 7"
proof -
  have t: "3 = fst (GetTag (Plain ''CTestEntity2'') (Plain ''CEntity'') tags_root_first)"
    by (simp add: tags_root_first_eval GetTag_fst)
  have r: "1 = fst (GetTag (Plain ''CEntity'') (Plain ''CEntity'')
         (snd (GetTag (Plain ''CTestEntity2'') (Plain ''CEntity'') tags_root_first)))"
    by (simp add: tags_root_first_eval GetTag_fst GetTag_Tag)
  note th = CVTable_Add_put [OF t r refl, of "Some (8::nat)" "[None, Some 7]" "Some 9"]
  from th have a: "length (snd (CVTable_Add (Plain ''CTestEntity2'') (Plain ''CEntity'') (Some (8::nat))
      (tags_root_first, [None, Some 7]))) = 4"
    by simp
  from th have "\<forall>i. length [None, Some (7::nat)] \<le> i \<and> i < 3 \<longrightarrow>
      snd (CVTable_Add (Plain ''CTestEntity2'') (Plain ''CEntity'') (Some (8::nat))
      (tags_root_first, [None, Some 7])) ! i = (if 1 < length [None, Some (7::nat)] then [None, Some 7] ! 1 else None)"
    by simp
  from this [rule_format, of 2] have b: "snd (CVTable_Add (Plain ''CTestEntity2'') (Plain ''CEntity'') (Some (8::nat))
      (tags_root_first, [None, Some 7])) ! 2 = Some 7"
    by simp
  from th have c: "snd (CVTable_Add (Plain ''CTestEntity2'') (Plain ''CEntity'') (Some (8::nat))
      (tags_root_first, [None, Some 7])) ! 3 = Some 8"
    by simp
  from th have "\<forall>i. i < length [None, Some (7::nat)] \<and> i \<noteq> 3 \<longrightarrow>
      snd (CVTable_Add (Plain ''CTestEntity2'') (Plain ''CEntity'') (Some (8::nat))
      (tags_root_first, [None, Some 7])) ! i = [None, Some 7] ! i"
    by simp
  from this [rule_format, of 1] have d: "snd (CVTable_Add (Plain ''CTestEntity2'') (Plain ''CEntity'') (Some (8::nat))
      (tags_root_first, [None, Some 7])) ! 1 = Some 7"
    by simp
  show ?thesis using t r a b c d by simp
qed

section \<open>Claims on the instance holder\<close>

text \<open>
  C7. For the instance holder of any triple: \<open>Add\<close> for a class with tag \<open>t\<close> stores the
  instance at slot \<open>t\<close>, so that reading \<open>t\<close> yields it; the vector grows to \<open>t + 1\<close> slots
  when needed, every slot it had keeps its instance, and every new slot below \<open>t\<close> is null,
  whatever the root's slot holds; reading an index inside the vector yields the slot, and
  reading any index beyond the vector yields null.
\<close>

theorem Holder_put_get:
  assumes "t = fst (GetTag DERIVED BASE s)"
    and "vec' = snd (Holder_Add DERIVED BASE p (s, vec))"
  shows "vec' ! t = p \<and> Holder_index t vec' = p \<and>
         length vec' = max (length vec) (t + 1) \<and>
         (\<forall>i. length vec \<le> i \<and> i < t \<longrightarrow> vec' ! i = None \<and> Holder_index i vec' = None) \<and>
         (\<forall>i. length vec \<le> i \<longrightarrow> Holder_index i vec = None) \<and>
         (\<forall>i. i < length vec \<and> i \<noteq> t \<longrightarrow> vec' ! i = vec ! i \<and> Holder_index i vec' = vec ! i) \<and>
         (\<forall>i. i < length vec \<longrightarrow> Holder_index i vec = vec ! i) \<and>
         (\<forall>i. length vec' \<le> i \<longrightarrow> Holder_index i vec' = None) \<and>
         fst (Holder_Add DERIVED BASE p (s, vec)) = snd (GetTag DERIVED BASE s)"
proof -
  have v: "vec' = vput t None p vec"
    using assms by (simp add: Holder_Add_vec)
  show ?thesis
    by (simp add: v Holder_index_def length_vput vput_nth_same vput_nth_new vput_nth_old
        Holder_Add_state)
qed

theorem Holder_put_get_witness:
  "3 = fst (GetTag (Plain ''CTestEntity2'') (Plain ''CEntity'') tags_root_first) \<and>
   snd (Holder_Add (Plain ''CTestEntity2'') (Plain ''CEntity'') (Some CTestOperationOnTestEntity2)
     (tags_root_first, [None, Some CTestOperationOnTestEntity1])) ! 2 = None \<and>
   Holder_index 3 (snd (Holder_Add (Plain ''CTestEntity2'') (Plain ''CEntity'')
     (Some CTestOperationOnTestEntity2)
     (tags_root_first, [None, Some CTestOperationOnTestEntity1]))) = Some CTestOperationOnTestEntity2 \<and>
   Holder_index 2 [None, Some CTestOperationOnTestEntity1] = None \<and>
   Holder_index 1 (snd (Holder_Add (Plain ''CTestEntity2'') (Plain ''CEntity'')
     (Some CTestOperationOnTestEntity2)
     (tags_root_first, [None, Some CTestOperationOnTestEntity1]))) = Some CTestOperationOnTestEntity1 \<and>
   length (snd (Holder_Add (Plain ''CTestEntity2'') (Plain ''CEntity'')
     (Some CTestOperationOnTestEntity2)
     (tags_root_first, [None, Some CTestOperationOnTestEntity1]))) = 4"
proof -
  let ?v = "[None, Some CTestOperationOnTestEntity1]"
  let ?v' = "snd (Holder_Add (Plain ''CTestEntity2'') (Plain ''CEntity'')
     (Some CTestOperationOnTestEntity2) (tags_root_first, ?v))"
  have t: "3 = fst (GetTag (Plain ''CTestEntity2'') (Plain ''CEntity'') tags_root_first)"
    by (simp add: tags_root_first_eval GetTag_fst)
  note th = Holder_put_get [OF t refl, of "Some CTestOperationOnTestEntity2" ?v]
  from th have a: "Holder_index 3 ?v' = Some CTestOperationOnTestEntity2"
    by simp
  from th have "\<forall>i. length ?v \<le> i \<and> i < 3 \<longrightarrow> ?v' ! i = None"
    by simp
  from this [rule_format, of 2] have b: "?v' ! 2 = None"
    by simp
  from th have "\<forall>i. length ?v \<le> i \<longrightarrow> Holder_index i ?v = None"
    by simp
  from this [rule_format, of 2] have c: "Holder_index 2 ?v = None"
    by simp
  from th have "\<forall>i. i < length ?v \<and> i \<noteq> 3 \<longrightarrow> Holder_index i ?v' = ?v ! i"
    by simp
  from this [rule_format, of 1] have d: "Holder_index 1 ?v' = Some CTestOperationOnTestEntity1"
    by simp
  from th have e: "length ?v' = 4"
    by simp
  show ?thesis using t a b c d e by simp
qed

section \<open>The frame of both Add functions\<close>

text \<open>
  C10. \<open>Add\<close> on the vtable and on the instance holder, for a class with tag \<open>t\<close>: when
  \<open>t\<close> is below the size, the size is unchanged and every slot but \<open>t\<close> keeps its value;
  when \<open>t\<close> is not below the size, the size becomes exactly \<open>t + 1\<close> and every slot that
  existed keeps its value.
\<close>

theorem Add_frame:
  assumes "t = fst (GetTag DERIVED BASE s)"
    and "vt' = snd (CVTable_Add DERIVED BASE f (s, vt))"
    and "ih' = snd (Holder_Add DERIVED BASE p (s, ih))"
  shows "(t < length vt \<longrightarrow> length vt' = length vt \<and> (\<forall>i. i \<noteq> t \<longrightarrow> vt' ! i = vt ! i)) \<and>
         (length vt \<le> t \<longrightarrow> length vt' = t + 1 \<and> (\<forall>i. i < length vt \<longrightarrow> vt' ! i = vt ! i)) \<and>
         (t < length ih \<longrightarrow> length ih' = length ih \<and> (\<forall>i. i \<noteq> t \<longrightarrow> ih' ! i = ih ! i)) \<and>
         (length ih \<le> t \<longrightarrow> length ih' = t + 1 \<and> (\<forall>i. i < length ih \<longrightarrow> ih' ! i = ih ! i))"
proof -
  have 1: "t < length vt \<longrightarrow> length vt' = length vt \<and> (\<forall>i. i \<noteq> t \<longrightarrow> vt' ! i = vt ! i)"
    using assms(1,2) by (simp add: CVTable_Add_vec vput_def)
  have 2: "length vt \<le> t \<longrightarrow> length vt' = t + 1 \<and> (\<forall>i. i < length vt \<longrightarrow> vt' ! i = vt ! i)"
    using assms(1,2) by (simp add: CVTable_Add_vec length_vput vput_nth_old)
  have 3: "t < length ih \<longrightarrow> length ih' = length ih \<and> (\<forall>i. i \<noteq> t \<longrightarrow> ih' ! i = ih ! i)"
    using assms(1,3) by (simp add: Holder_Add_vec vput_def)
  have 4: "length ih \<le> t \<longrightarrow> length ih' = t + 1 \<and> (\<forall>i. i < length ih \<longrightarrow> ih' ! i = ih ! i)"
    using assms(1,3) by (simp add: Holder_Add_vec length_vput vput_nth_old)
  show ?thesis using 1 2 3 4 by blast
qed

theorem Add_frame_witness:
  "3 = fst (GetTag (Plain ''CTestEntity2'') (Plain ''CEntity'') tags_root_first) \<and>
   length (snd (CVTable_Add (Plain ''CTestEntity2'') (Plain ''CEntity'') (Some (8::nat))
      (tags_root_first, [None, Some 7]))) = 4 \<and>
   snd (CVTable_Add (Plain ''CTestEntity2'') (Plain ''CEntity'') (Some (8::nat))
      (tags_root_first, [None, Some 7])) ! 1 = Some 7 \<and>
   length (snd (Holder_Add (Plain ''CTestEntity2'') (Plain ''CEntity'') (Some (5::nat))
      (tags_root_first, [None, None, None, Some 4, Some 6]))) = 5 \<and>
   snd (Holder_Add (Plain ''CTestEntity2'') (Plain ''CEntity'') (Some (5::nat))
      (tags_root_first, [None, None, None, Some 4, Some 6])) ! 4 = Some 6"
proof -
  have t: "3 = fst (GetTag (Plain ''CTestEntity2'') (Plain ''CEntity'') tags_root_first)"
    by (simp add: tags_root_first_eval GetTag_fst)
  note th = Add_frame [OF t refl refl, where f = "Some (8::nat)" and vt = "[None, Some 7]"
      and p = "Some (5::nat)" and ih = "[None, None, None, Some 4, Some 6]"]
  from th have a: "length (snd (CVTable_Add (Plain ''CTestEntity2'') (Plain ''CEntity'') (Some (8::nat))
      (tags_root_first, [None, Some 7]))) = 4"
    by simp
  from th have "\<forall>i. i < length [None, Some (7::nat)] \<longrightarrow>
     snd (CVTable_Add (Plain ''CTestEntity2'') (Plain ''CEntity'') (Some (8::nat))
      (tags_root_first, [None, Some 7])) ! i = [None, Some 7] ! i"
    by simp
  from this [rule_format, of 1] have b: "snd (CVTable_Add (Plain ''CTestEntity2'') (Plain ''CEntity'')
      (Some (8::nat)) (tags_root_first, [None, Some 7])) ! 1 = Some 7"
    by simp
  from th have c: "length (snd (Holder_Add (Plain ''CTestEntity2'') (Plain ''CEntity'') (Some (5::nat))
      (tags_root_first, [None, None, None, Some 4, Some 6]))) = 5"
    by simp
  from th have "\<forall>i. i \<noteq> 3 \<longrightarrow>
     snd (Holder_Add (Plain ''CTestEntity2'') (Plain ''CEntity'') (Some (5::nat))
      (tags_root_first, [None, None, None, Some 4, Some 6])) ! i = [None, None, None, Some 4, Some 6] ! i"
    by simp
  from this [rule_format, of 4] have d: "snd (Holder_Add (Plain ''CTestEntity2'') (Plain ''CEntity'')
      (Some (5::nat)) (tags_root_first, [None, None, None, Some 4, Some 6])) ! 4 = Some 6"
    by simp
  show ?thesis using t a b c d by simp
qed

lemma test_registered1_eval:
  "test_registered1 =
     \<lparr>tagst = \<lparr>Count = (\<lambda>b. 0)(Plain ''CEntity'' := 2),
                Tag = (\<lambda>h. 0)((Const ''CTestEntity1'', Const ''CEntity'') := 1,
                               (Const ''CEntity'', Const ''CEntity'') := 2)\<rparr>,
      vtables = (\<lambda>k. [])((''Testing'', Plain ''CEntity'', ''int'') :=
                  [None, Some (Hook (Plain ''CTestEntity1'') CTestOperationOnTestEntity1)]),
      holders = (\<lambda>k. [])((''Testing'', Plain ''CEntity'', ''int'') :=
                  [None, Some CTestOperationOnTestEntity1])\<rparr>"
  by (simp add: test_registered1_def REGISTER_OPERATION_def CVTable_Add_def Holder_Add_def
      GetTag_def init_world_def init_tags_def Let_def resize_def numeral_2_eq_2)

lemma test_registered_eval:
  "test_registered =
     \<lparr>tagst = \<lparr>Count = (\<lambda>b. 0)(Plain ''CEntity'' := 3),
                Tag = (\<lambda>h. 0)((Const ''CTestEntity1'', Const ''CEntity'') := 1,
                               (Const ''CEntity'', Const ''CEntity'') := 2,
                               (Const ''CTestEntity2'', Const ''CEntity'') := 3)\<rparr>,
      vtables = (\<lambda>k. [])((''Testing'', Plain ''CEntity'', ''int'') :=
                  [None, Some (Hook (Plain ''CTestEntity1'') CTestOperationOnTestEntity1),
                   None, Some (Hook (Plain ''CTestEntity2'') CTestOperationOnTestEntity2)]),
      holders = (\<lambda>k. [])((''Testing'', Plain ''CEntity'', ''int'') :=
                  [None, Some CTestOperationOnTestEntity1, None, Some CTestOperationOnTestEntity2])\<rparr>"
  by (simp add: test_registered_def test_registered1_eval REGISTER_OPERATION_def CVTable_Add_def
      Holder_Add_def GetTag_def Let_def resize_def numeral_3_eq_3 numeral_2_eq_2)

section \<open>Dispatch on an operand nothing was registered for\<close>

text \<open>
  C2. A call on an operand of a class with no registration and no root fallback is not
  reported as a failure; its behaviour is undefined. With nothing registered, and with only
  \<^verbatim>\<open>CTestEntity1\<close> registered, \<^verbatim>\<open>CallOperation\<close> on a \<^verbatim>\<open>CTestEntity2\<close> reads the vtable beyond
  its size, at the tag of the root; with both test entities registered, \<^verbatim>\<open>CallOperation\<close>
  on an entity of a third class calls through a null member pointer on a null operation
  object.
\<close>

theorem CallOperation_unregistered:
  "CallOperation test_ApplyTo ''Testing'' (Plain ''CEntity'') ''int'' e2 init_world = Inl OutOfRangeRead \<and>
   CallOperation test_ApplyTo ''Testing'' (Plain ''CEntity'') ''int'' e2 test_registered1 = Inl OutOfRangeRead \<and>
   CallOperation test_ApplyTo ''Testing'' (Plain ''CEntity'') ''int'' e3 test_registered = Inl NullCall"
proof -
  have a: "CallOperation test_ApplyTo ''Testing'' (Plain ''CEntity'') ''int'' e2 init_world = Inl OutOfRangeRead"
    by (simp add: CallOperation_def CVTable_index_def GetTag_def init_world_def init_tags_def
        e2_def Let_def)
  have b: "CallOperation test_ApplyTo ''Testing'' (Plain ''CEntity'') ''int'' e2 test_registered1 = Inl OutOfRangeRead"
    by (simp add: CallOperation_def CVTable_index_def GetTag_def test_registered1_eval
        e2_def Let_def)
  have c: "CallOperation test_ApplyTo ''Testing'' (Plain ''CEntity'') ''int'' e3 test_registered = Inl NullCall"
    by (simp add: CallOperation_def CVTable_index_def GetTag_def test_registered_eval
        e3_def Let_def Holder_index_def Hook_call_def)
  show ?thesis using a b c by simp
qed

text \<open>
  C6. The read of the vtable is not total. \<^verbatim>\<open>CVTable::operator[]\<close> replaces an index beyond
  the table by the root's tag and reads there without a second check: on the empty table,
  and on the table with only \<^verbatim>\<open>CTestEntity1\<close> registered (two slots, root tag 2), the read is
  beyond the size of the vector. Where the index or the root's tag is inside the table, the
  read is as \<open>CVTable_index_inside\<close> and \<open>CVTable_index_outside\<close> say.
\<close>

theorem CVTable_index_unguarded:
  "CVTable_index (Plain ''CEntity'') 1 (tagst init_world, vtables (init_world :: test_operation world) (''Testing'', Plain ''CEntity'', ''int''))
     = Inl OutOfRangeRead \<and>
   CVTable_index (Plain ''CEntity'') 3 (tagst test_registered1, vtables test_registered1 (''Testing'', Plain ''CEntity'', ''int''))
     = Inl OutOfRangeRead"
  by (simp add: CVTable_index_def GetTag_def init_world_def init_tags_def test_registered1_eval Let_def)

section \<open>Two counters for one hierarchy\<close>

text \<open>
  When every call names the root by the same \<open>BASE\<close> argument, the tags are in order and
  stay so: classes asked for receive distinct tags.
\<close>

lemma tags_ok_GetTag_all: "tags_ok s BASE \<Longrightarrow> tags_ok (GetTag_all ds BASE s) BASE"
  by (induction ds arbitrary: s) (simp_all add: tags_ok_GetTag)

lemma GetTag_all_keeps: "Tag s h \<noteq> 0 \<Longrightarrow> Tag (GetTag_all ds BASE s) h = Tag s h"
  by (induction ds arbitrary: s) (simp_all add: GetTag_keeps)

lemma GetTag_all_assigned:
  "d \<in> set ds \<Longrightarrow> Tag (GetTag_all ds BASE s) (add_const d, add_const BASE) \<noteq> 0"
proof (induction ds arbitrary: s)
  case Nil
  then show ?case by simp
next
  case (Cons a ds)
  show ?case
  proof (cases "d = a")
    case True
    have "Tag (snd (GetTag a BASE s)) (add_const a, add_const BASE) \<noteq> 0"
      using GetTag_pos [of a BASE s] by (simp add: GetTag_stores)
    then show ?thesis
      using True by (simp add: GetTag_all_keeps)
  next
    case False
    then show ?thesis using Cons by simp
  qed
qed

lemma same_BASE_distinct_tags:
  assumes "tags_ok s BASE" and "d \<in> set ds" and "d' \<in> set ds" and "add_const d \<noteq> add_const d'"
  shows "fst (GetTag d BASE (GetTag_all ds BASE s)) \<noteq> fst (GetTag d' BASE (GetTag_all ds BASE s))"
proof -
  let ?s = "GetTag_all ds BASE s"
  have a: "Tag ?s (add_const d, add_const BASE) \<noteq> 0" and b: "Tag ?s (add_const d', add_const BASE) \<noteq> 0"
    using assms(2,3) by (simp_all add: GetTag_all_assigned)
  have "Tag ?s (add_const d, add_const BASE) \<noteq> Tag ?s (add_const d', add_const BASE)"
    using tags_ok_distinct [OF tags_ok_GetTag_all [OF assms(1)] a assms(4)] .
  then show ?thesis
    using a b by (simp add: GetTag_assigned)
qed

text \<open>
  C9. Distinct classes of one hierarchy do not always receive distinct tags. The holder of
  a pair is \<^verbatim>\<open>STagHolder<const DERIVED, const BASE>\<close>, the counter is \<^verbatim>\<open>STagCounter<BASE>\<close>:
  the holder's own initialiser calls \<^verbatim>\<open>GetTag<const DERIVED, const BASE>()\<close> and so counts in
  \<^verbatim>\<open>STagCounter<const BASE>\<close>, every other call counts in \<^verbatim>\<open>STagCounter<BASE>\<close>. When the
  holder of the root is initialised before the first call for \<^verbatim>\<open>CTestEntity1\<close>, the root and
  \<^verbatim>\<open>CTestEntity1\<close> both receive the tag 1; when the holder of \<^verbatim>\<open>CTestEntity2\<close> is, so do
  \<^verbatim>\<open>CTestEntity1\<close> and \<^verbatim>\<open>CTestEntity2\<close>.
\<close>

theorem GetTag_collision:
  "fst (GetTag (Plain ''CTestEntity1'') (Plain ''CEntity'')
     (STagHolder_init (Const ''CEntity'') (Const ''CEntity'') init_tags)) = 1 \<and>
   fst (GetTag (Plain ''CEntity'') (Plain ''CEntity'')
     (snd (GetTag (Plain ''CTestEntity1'') (Plain ''CEntity'')
       (STagHolder_init (Const ''CEntity'') (Const ''CEntity'') init_tags)))) = 1 \<and>
   fst (GetTag (Plain ''CTestEntity1'') (Plain ''CEntity'')
     (STagHolder_init (Const ''CTestEntity2'') (Const ''CEntity'') init_tags)) = 1 \<and>
   fst (GetTag (Plain ''CTestEntity2'') (Plain ''CEntity'')
     (snd (GetTag (Plain ''CTestEntity1'') (Plain ''CEntity'')
       (STagHolder_init (Const ''CTestEntity2'') (Const ''CEntity'') init_tags)))) = 1"
  by (simp add: STagHolder_init_def GetTag_def init_tags_def Let_def)

section \<open>Registration and dispatch\<close>

lemma Holder_Add_after_CVTable_Add:
  "Holder_Add DERIVED BASE p (fst (CVTable_Add DERIVED BASE f (s, vt)), ih) =
     (fst (CVTable_Add DERIVED BASE f (s, vt)), vput (fst (GetTag DERIVED BASE s)) None p ih)"
proof -
  let ?s' = "fst (CVTable_Add DERIVED BASE f (s, vt))"
  have tag: "GetTag DERIVED BASE ?s' = (fst (GetTag DERIVED BASE s), ?s')"
    using GetTag_pos [of DERIVED BASE s] by (intro GetTag_known) (simp_all add: CVTable_Add_Tag)
  show ?thesis
    using tag by (simp add: prod_eq_iff Holder_Add_vec Holder_Add_state)
qed

lemma REGISTER_OPERATION_eq:
  "REGISTER_OPERATION CONTEXT BASE OPERATION RETURN_VALUE DERIVED w =
     w\<lparr>tagst := fst (CVTable_Add DERIVED BASE (Some (Hook DERIVED OPERATION))
                  (tagst w, vtables w (CONTEXT, BASE, RETURN_VALUE))),
       vtables := (vtables w)((CONTEXT, BASE, RETURN_VALUE) :=
                  snd (CVTable_Add DERIVED BASE (Some (Hook DERIVED OPERATION))
                  (tagst w, vtables w (CONTEXT, BASE, RETURN_VALUE)))),
       holders := (holders w)((CONTEXT, BASE, RETURN_VALUE) :=
                  vput (fst (GetTag DERIVED BASE (tagst w))) None (Some OPERATION)
                    (holders w (CONTEXT, BASE, RETURN_VALUE)))\<rparr>"
  by (simp add: REGISTER_OPERATION_def Let_def split_beta Holder_Add_after_CVTable_Add)

lemma REGISTER_OPERATION_Tag:
  "Tag (tagst (REGISTER_OPERATION CONTEXT BASE OPERATION RETURN_VALUE DERIVED w))
     (add_const DERIVED, add_const BASE) = fst (GetTag DERIVED BASE (tagst w))"
  by (simp add: REGISTER_OPERATION_eq CVTable_Add_Tag)

lemma REGISTER_OPERATION_keeps:
  "Tag (tagst w) h \<noteq> 0 \<Longrightarrow>
   Tag (tagst (REGISTER_OPERATION CONTEXT BASE OPERATION RETURN_VALUE DERIVED w)) h = Tag (tagst w) h"
  by (simp add: REGISTER_OPERATION_eq CVTable_Add_keeps)

lemma tags_ok_REGISTER_OPERATION:
  "tags_ok (tagst w) BASE \<Longrightarrow>
   tags_ok (tagst (REGISTER_OPERATION CONTEXT BASE OPERATION RETURN_VALUE DERIVED w)) BASE"
  by (simp add: REGISTER_OPERATION_eq tags_ok_CVTable_Add)

lemma REGISTER_OPERATION_slots:
  assumes "t = fst (GetTag DERIVED BASE (tagst w))"
    and "w' = REGISTER_OPERATION CONTEXT BASE OPERATION RETURN_VALUE DERIVED w"
    and "k = (CONTEXT, BASE, RETURN_VALUE)"
  shows "t < length (vtables w' k)" and "vtables w' k ! t = Some (Hook DERIVED OPERATION)"
    and "t < length (holders w' k)" and "holders w' k ! t = Some OPERATION"
  using assms
  by (simp_all add: REGISTER_OPERATION_eq CVTable_Add_vec length_vput vput_nth_same)

lemma REGISTER_OPERATION_frame:
  assumes "t = fst (GetTag DERIVED BASE (tagst w))"
    and "w' = REGISTER_OPERATION CONTEXT BASE OPERATION RETURN_VALUE DERIVED w"
    and "i \<noteq> t"
  shows "i < length (vtables w k) \<Longrightarrow> i < length (vtables w' k) \<and> vtables w' k ! i = vtables w k ! i"
    and "i < length (holders w k) \<Longrightarrow> i < length (holders w' k) \<and> holders w' k ! i = holders w k ! i"
  using assms
  by (auto simp add: REGISTER_OPERATION_eq CVTable_Add_vec length_vput vput_nth_old)

lemma CallOperation_slot:
  assumes "Tag (tagst w) (add_const (cls t_base), add_const BASE) = t" and "t \<noteq> 0"
    and "t < length (vtables w (CONTEXT, BASE, RETURN_VALUE))"
    and "vtables w (CONTEXT, BASE, RETURN_VALUE) ! t = Some (Hook (cls t_base) OPERATION)"
    and "t < length (holders w (CONTEXT, BASE, RETURN_VALUE))"
    and "holders w (CONTEXT, BASE, RETURN_VALUE) ! t = Some OPERATION"
  shows "CallOperation ApplyTo CONTEXT BASE RETURN_VALUE t_base w = Inr (ApplyTo OPERATION t_base, w)"
proof -
  have tag: "GetTag (cls t_base) BASE (tagst w) = (t, tagst w)"
    using assms(1,2) by (rule GetTag_known)
  show ?thesis
    using assms(3-6)
    by (simp add: CallOperation_def tag CVTable_index_inside Holder_index_def Hook_call_def)
qed

text \<open>
  Dispatch when the tags are in order. In a state whose tags for the root are in order, let
  an operation for class \<open>A\<close> whose \<^verbatim>\<open>ApplyTo\<close> returns 1 and an operation for another class
  \<open>B\<close> whose \<^verbatim>\<open>ApplyTo\<close> returns 2 be registered under the same context, root and return
  type. Then \<^verbatim>\<open>CallOperation\<close> on an operand of class \<open>A\<close> returns 1 and on an operand of
  class \<open>B\<close> returns 2, and neither call changes the state. The instance below is \<^verbatim>\<open>main\<close>
  of \<^verbatim>\<open>testing.cpp\<close> run from the initial state.
\<close>

theorem CallOperation_dispatch:
  assumes "tags_ok (tagst w) BASE"
    and "add_const A \<noteq> add_const B"
    and "cls a = A" and "cls b = B"
    and "ApplyTo Op1 a = (1::int)" and "ApplyTo Op2 b = 2"
    and "w2 = REGISTER_OPERATION CONTEXT BASE Op2 RETURN_VALUE B
               (REGISTER_OPERATION CONTEXT BASE Op1 RETURN_VALUE A w)"
  shows "CallOperation ApplyTo CONTEXT BASE RETURN_VALUE a w2 = Inr (1, w2) \<and>
         CallOperation ApplyTo CONTEXT BASE RETURN_VALUE b w2 = Inr (2, w2)"
proof -
  let ?k = "(CONTEXT, BASE, RETURN_VALUE)"
  let ?w1 = "REGISTER_OPERATION CONTEXT BASE Op1 RETURN_VALUE A w"
  let ?tA = "fst (GetTag A BASE (tagst w))"
  let ?tB = "fst (GetTag B BASE (tagst ?w1))"
  have tA: "Tag (tagst ?w1) (add_const A, add_const BASE) = ?tA"
    by (rule REGISTER_OPERATION_Tag)
  have tA0: "?tA \<noteq> 0"
    using GetTag_pos [of A BASE "tagst w"] by simp
  have tA2: "Tag (tagst w2) (add_const A, add_const BASE) = ?tA"
    using tA tA0 by (simp add: assms(7) REGISTER_OPERATION_keeps)
  have tB2: "Tag (tagst w2) (add_const B, add_const BASE) = ?tB"
    by (simp add: assms(7) REGISTER_OPERATION_Tag)
  have tB0: "?tB \<noteq> 0"
    using GetTag_pos [of B BASE "tagst ?w1"] by simp
  have ok: "tags_ok (tagst w2) BASE"
    using assms(1) by (simp add: assms(7) tags_ok_REGISTER_OPERATION)
  have ne: "?tA \<noteq> ?tB"
    using tags_ok_distinct [OF ok, of "add_const A" "add_const B"] tA2 tB2 tA0 assms(2) by simp
  note s1 = REGISTER_OPERATION_slots [OF refl refl refl, where CONTEXT = CONTEXT and BASE = BASE
      and OPERATION = Op1 and RETURN_VALUE = RETURN_VALUE and DERIVED = A and w = w]
  note s2 = REGISTER_OPERATION_slots [OF refl refl refl, where CONTEXT = CONTEXT and BASE = BASE
      and OPERATION = Op2 and RETURN_VALUE = RETURN_VALUE and DERIVED = B and w = ?w1]
  note f2 = REGISTER_OPERATION_frame [OF refl refl ne, where CONTEXT = CONTEXT
      and OPERATION = Op2 and RETURN_VALUE = RETURN_VALUE and k = ?k]
  have a: "CallOperation ApplyTo CONTEXT BASE RETURN_VALUE a w2 = Inr (ApplyTo Op1 a, w2)"
    using tA2 tA0 s1 f2 assms(3)
    by (intro CallOperation_slot [where t = ?tA]) (simp_all add: assms(7))
  have b: "CallOperation ApplyTo CONTEXT BASE RETURN_VALUE b w2 = Inr (ApplyTo Op2 b, w2)"
    using tB2 tB0 s2 assms(4)
    by (intro CallOperation_slot [where t = ?tB]) (simp_all add: assms(7))
  show ?thesis using a b assms(5,6) by simp
qed


theorem CallOperation_dispatch_witness:
  "tags_ok (tagst (init_world :: test_operation world)) (Plain ''CEntity'') \<and>
   CallOperation test_ApplyTo ''Testing'' (Plain ''CEntity'') ''int'' e1 test_registered =
     Inr (1, test_registered) \<and>
   CallOperation test_ApplyTo ''Testing'' (Plain ''CEntity'') ''int'' e2 test_registered =
     Inr (2, test_registered)"
proof -
  have ok: "tags_ok (tagst (init_world :: test_operation world)) (Plain ''CEntity'')"
    by (simp add: init_world_def tags_ok_init)
  have ne: "add_const (Plain ''CTestEntity1'') \<noteq> add_const (Plain ''CTestEntity2'')"
    by simp
  have c1: "cls e1 = Plain ''CTestEntity1''" and c2: "cls e2 = Plain ''CTestEntity2''"
    by (simp_all add: e1_def e2_def)
  have r1: "test_ApplyTo CTestOperationOnTestEntity1 e1 = 1"
    and r2: "test_ApplyTo CTestOperationOnTestEntity2 e2 = 2"
    by simp_all
  have w2: "test_registered =
      REGISTER_OPERATION ''Testing'' (Plain ''CEntity'') CTestOperationOnTestEntity2 ''int''
        (Plain ''CTestEntity2'')
        (REGISTER_OPERATION ''Testing'' (Plain ''CEntity'') CTestOperationOnTestEntity1 ''int''
          (Plain ''CTestEntity1'') init_world)"
    by (simp add: test_registered_def test_registered1_def)
  show ?thesis
    using CallOperation_dispatch [OF ok ne c1 c2 r1 r2 w2] ok by simp
qed

lemma test_registered_late_eval:
  "test_registered_late =
     \<lparr>tagst = \<lparr>Count = (\<lambda>b. 0)(Const ''CEntity'' := 1, Plain ''CEntity'' := 2),
                Tag = (\<lambda>h. 0)((Const ''CTestEntity2'', Const ''CEntity'') := 1,
                               (Const ''CTestEntity1'', Const ''CEntity'') := 1,
                               (Const ''CEntity'', Const ''CEntity'') := 2)\<rparr>,
      vtables = (\<lambda>k. [])((''Testing'', Plain ''CEntity'', ''int'') :=
                  [None, Some (Hook (Plain ''CTestEntity2'') CTestOperationOnTestEntity2)]),
      holders = (\<lambda>k. [])((''Testing'', Plain ''CEntity'', ''int'') :=
                  [None, Some CTestOperationOnTestEntity2])\<rparr>"
  by (simp add: test_registered_late_def holder_initialised_first_def STagHolder_init_def
      REGISTER_OPERATION_def CVTable_Add_def Holder_Add_def
      GetTag_def init_world_def init_tags_def Let_def resize_def numeral_2_eq_2)

text \<open>
  C1. Dispatch on the two test entities does not return 1 and 2 in every run of the
  program. When the holder of \<^verbatim>\<open>CTestEntity2\<close> is initialised before the registrations run,
  \<^verbatim>\<open>CTestEntity1\<close> and \<^verbatim>\<open>CTestEntity2\<close> both have the tag 1, the second registration
  overwrites the slot of the first, and \<^verbatim>\<open>CallOperation\<close> on \<open>e1\<close> runs the hook of
  \<^verbatim>\<open>CTestOperationOnTestEntity2\<close>, which casts \<open>e1\<close> to \<^verbatim>\<open>CTestEntity2\<close>; on \<open>e2\<close> it returns 2.
\<close>

theorem CallOperation_dispatch_after_collision:
  "fst (GetTag (cls e1) (Plain ''CEntity'') (tagst test_registered_late)) = 1 \<and>
   fst (GetTag (cls e2) (Plain ''CEntity'') (tagst test_registered_late)) = 1 \<and>
   vtables test_registered_late (''Testing'', Plain ''CEntity'', ''int'') =
     [None, Some (Hook (Plain ''CTestEntity2'') CTestOperationOnTestEntity2)] \<and>
   holders test_registered_late (''Testing'', Plain ''CEntity'', ''int'') =
     [None, Some CTestOperationOnTestEntity2] \<and>
   CallOperation test_ApplyTo ''Testing'' (Plain ''CEntity'') ''int'' e1 test_registered_late =
     Inl BadCast \<and>
   CallOperation test_ApplyTo ''Testing'' (Plain ''CEntity'') ''int'' e2 test_registered_late =
     Inr (2, test_registered_late)"
proof -
  have a: "fst (GetTag (cls e1) (Plain ''CEntity'') (tagst test_registered_late)) = 1"
    and b: "fst (GetTag (cls e2) (Plain ''CEntity'') (tagst test_registered_late)) = 1"
    by (simp_all add: test_registered_late_eval GetTag_fst e1_def e2_def)
  have c: "CallOperation test_ApplyTo ''Testing'' (Plain ''CEntity'') ''int'' e1 test_registered_late =
     Inl BadCast"
    by (simp add: CallOperation_def CVTable_index_def Holder_index_def Hook_call_def GetTag_def
        test_registered_late_eval e1_def Let_def)
  have "CallOperation test_ApplyTo ''Testing'' (Plain ''CEntity'') ''int'' e2 test_registered_late =
     Inr (2, test_registered_late\<lparr>tagst := tagst test_registered_late\<rparr>)"
    by (simp add: CallOperation_def CVTable_index_def Holder_index_def Hook_call_def GetTag_def
        test_registered_late_eval e2_def Let_def)
  then have d: "CallOperation test_ApplyTo ''Testing'' (Plain ''CEntity'') ''int'' e2 test_registered_late =
     Inr (2, test_registered_late)"
    by simp
  show ?thesis
    using a b c d by (simp add: test_registered_late_eval)
qed

section \<open>The vtable and the instance holder, slot by slot\<close>

lemma vput_Some_stays:
  "i < length xs \<Longrightarrow> xs ! i \<noteq> None \<Longrightarrow> vput t v (Some x) xs ! i \<noteq> None"
  by (cases "i = t") (simp_all add: vput_nth_same vput_nth_old)

lemma paired_init: "paired init_world"
  by (simp add: paired_def init_world_def)

lemma paired_REGISTER_OPERATION:
  assumes "paired w"
  shows "paired (REGISTER_OPERATION CONTEXT BASE OPERATION RETURN_VALUE DERIVED w)"
proof -
  let ?k = "(CONTEXT, BASE, RETURN_VALUE)"
  let ?t = "fst (GetTag DERIVED BASE (tagst w))"
  have len: "length (vtables w ?k) = length (holders w ?k)"
    using assms unfolding paired_def by blast
  have imp: "\<And>t. t < length (holders w ?k) \<Longrightarrow> holders w ?k ! t \<noteq> None \<Longrightarrow> vtables w ?k ! t \<noteq> None"
    using assms unfolding paired_def by blast
  have step: "vput ?t v (Some f) (vtables w ?k) ! i \<noteq> None"
    if "i < max (length (holders w ?k)) (?t + 1)" and "vput ?t None (Some p) (holders w ?k) ! i \<noteq> None"
    for i v f p
  proof (cases "i = ?t")
    case True
    then show ?thesis by (simp add: vput_nth_same)
  next
    case ne: False
    show ?thesis
    proof (cases "i < length (holders w ?k)")
      case True
      then show ?thesis
        using that(2) ne imp [of i] len by (simp add: vput_nth_old)
    next
      case False
      then have "vput ?t None (Some p) (holders w ?k) ! i = None"
        using that(1) ne by (intro vput_nth_new) simp_all
      then show ?thesis using that(2) by simp
    qed
  qed
  show ?thesis
    unfolding paired_def
  proof (intro allI conjI impI)
    fix k
    have "length (vtables w k) = length (holders w k)"
      using assms unfolding paired_def by blast
    then show "length (vtables (REGISTER_OPERATION CONTEXT BASE OPERATION RETURN_VALUE DERIVED w) k) =
          length (holders (REGISTER_OPERATION CONTEXT BASE OPERATION RETURN_VALUE DERIVED w) k)"
      using len
      by (simp add: REGISTER_OPERATION_eq CVTable_Add_vec length_vput)
  next
    fix k t
    assume a: "t < length (holders (REGISTER_OPERATION CONTEXT BASE OPERATION RETURN_VALUE DERIVED w) k) \<and>
       holders (REGISTER_OPERATION CONTEXT BASE OPERATION RETURN_VALUE DERIVED w) k ! t \<noteq> None"
    show "vtables (REGISTER_OPERATION CONTEXT BASE OPERATION RETURN_VALUE DERIVED w) k ! t \<noteq> None"
    proof (cases "k = ?k")
      case True
      obtain v where vt: "vtables (REGISTER_OPERATION CONTEXT BASE OPERATION RETURN_VALUE DERIVED w) k =
          vput ?t v (Some (Hook DERIVED OPERATION)) (vtables w ?k)"
        using True by (simp add: REGISTER_OPERATION_eq CVTable_Add_vec)
      have ih: "holders (REGISTER_OPERATION CONTEXT BASE OPERATION RETURN_VALUE DERIVED w) k =
          vput ?t None (Some OPERATION) (holders w ?k)"
        using True by (simp add: REGISTER_OPERATION_eq)
      show ?thesis
        using a step [of t OPERATION v "Hook DERIVED OPERATION"]
        by (simp add: vt ih length_vput del: not_None_eq)
    next
      case False
      have "t < length (holders w k) \<and> holders w k ! t \<noteq> None \<longrightarrow> vtables w k ! t \<noteq> None"
        using assms unfolding paired_def by blast
      then show ?thesis
        using a False by (simp add: REGISTER_OPERATION_eq)
    qed
  qed
qed

lemma paired_register_all: "paired w \<Longrightarrow> paired (register_all rs w)"
proof (induction rs arbitrary: w)
  case Nil
  then show ?case by simp
next
  case (Cons r rs)
  then show ?case
    by (cases r) (simp add: paired_REGISTER_OPERATION)
qed

lemma REGISTER_OPERATION_stays:
  assumes "w' = REGISTER_OPERATION CONTEXT BASE OPERATION RETURN_VALUE DERIVED w"
  shows "i < length (vtables w k) \<Longrightarrow> vtables w k ! i \<noteq> None \<Longrightarrow>
           i < length (vtables w' k) \<and> vtables w' k ! i \<noteq> None"
    and "i < length (holders w k) \<Longrightarrow> holders w k ! i \<noteq> None \<Longrightarrow>
           i < length (holders w' k) \<and> holders w' k ! i \<noteq> None"
proof -
  let ?key = "(CONTEXT, BASE, RETURN_VALUE)"
  show "i < length (vtables w k) \<Longrightarrow> vtables w k ! i \<noteq> None \<Longrightarrow>
           i < length (vtables w' k) \<and> vtables w' k ! i \<noteq> None"
    using vput_Some_stays [of i "vtables w ?key"]
    by (cases "k = ?key")
      (simp_all add: assms REGISTER_OPERATION_eq CVTable_Add_vec length_vput del: not_None_eq)
  show "i < length (holders w k) \<Longrightarrow> holders w k ! i \<noteq> None \<Longrightarrow>
           i < length (holders w' k) \<and> holders w' k ! i \<noteq> None"
    using vput_Some_stays [of i "holders w ?key"]
    by (cases "k = ?key")
      (simp_all add: assms REGISTER_OPERATION_eq length_vput del: not_None_eq)
qed

lemma filled_register_self: "filled r (register r w)"
proof (cases r)
  case (Registration CONTEXT BASE OPERATION RETURN_VALUE DERIVED)
  note s = REGISTER_OPERATION_slots [OF refl refl refl, where CONTEXT = CONTEXT and BASE = BASE
      and OPERATION = OPERATION and RETURN_VALUE = RETURN_VALUE and DERIVED = DERIVED and w = w]
  show ?thesis
    using s GetTag_pos [of DERIVED BASE "tagst w"]
    by (simp add: Registration filled_def REGISTER_OPERATION_Tag)
qed

lemma filled_register_other:
  assumes "filled r' w" and p: "paired w"
  shows "filled r' (register r w)"
proof (cases r)
  case r: (Registration CONTEXT BASE OPERATION RETURN_VALUE DERIVED)
  show ?thesis
  proof (cases r')
    case r': (Registration CONTEXT' BASE' OPERATION' RETURN_VALUE' DERIVED')
    let ?u = "Tag (tagst w) (add_const DERIVED', add_const BASE')"
    let ?k' = "(CONTEXT', BASE', RETURN_VALUE')"
    have u: "?u \<noteq> 0" "?u < length (vtables w ?k')" "vtables w ?k' ! ?u \<noteq> None"
      "holders w ?k' ! ?u \<noteq> None"
      using assms(1) by (simp_all add: r' filled_def)
    have keep: "Tag (tagst (register r w)) (add_const DERIVED', add_const BASE') = ?u"
      using u(1) by (simp add: r REGISTER_OPERATION_keeps)
    have len: "length (vtables w ?k') = length (holders w ?k')"
      using p unfolding paired_def by blast
    note st = REGISTER_OPERATION_stays [OF refl, where w = w and k = ?k' and i = ?u
        and CONTEXT = CONTEXT and BASE = BASE and OPERATION = OPERATION
        and RETURN_VALUE = RETURN_VALUE and DERIVED = DERIVED]
    show ?thesis
      using st u len by (simp add: r r' filled_def keep [unfolded r, simplified])
  qed
qed

lemma filled_register_all:
  "paired w \<Longrightarrow> filled r w \<Longrightarrow> filled r (register_all rs w)"
proof (induction rs arbitrary: w)
  case Nil
  then show ?case by simp
next
  case (Cons a rs)
  have "paired (register a w)"
    using Cons.prems(1) by (cases a) (simp add: paired_REGISTER_OPERATION)
  then show ?case
    using Cons by (simp add: filled_register_other)
qed

lemma filled_member:
  "paired w \<Longrightarrow> r \<in> set rs \<Longrightarrow> filled r (register_all rs w)"
proof (induction rs arbitrary: w)
  case Nil
  then show ?case by simp
next
  case (Cons a rs)
  have p: "paired (register a w)"
    using Cons.prems(1) by (cases a) (simp add: paired_REGISTER_OPERATION)
  show ?case
  proof (cases "r = a")
    case True
    then show ?thesis
      using p by (simp add: filled_register_all filled_register_self)
  next
    case False
    then show ?thesis
      using Cons p by simp
  qed
qed

lemma two_contexts_eval:
  "two_contexts =
     \<lparr>tagst = \<lparr>Count = (\<lambda>b. 0)(Plain ''Base'' := 3),
                Tag = (\<lambda>h. 0)((Const ''Base'', Const ''Base'') := 1,
                               (Const ''D'', Const ''Base'') := 2,
                               (Const ''E'', Const ''Base'') := 3)\<rparr>,
      vtables = (\<lambda>k. [])((''Ctx'', Plain ''Base'', ''int'') :=
                  [None, Some (Hook (Plain ''Base'') OpOnBase),
                   Some (Hook (Plain ''Base'') OpOnBase), Some (Hook (Plain ''E'') OpOnE)],
                  (''Ctx2'', Plain ''Base'', ''int'') :=
                  [None, None, Some (Hook (Plain ''D'') OpOnD)]),
      holders = (\<lambda>k. [])((''Ctx'', Plain ''Base'', ''int'') :=
                  [None, Some OpOnBase, None, Some OpOnE],
                  (''Ctx2'', Plain ''Base'', ''int'') := [None, None, Some OpOnD])\<rparr>"
  apply (simp add: two_contexts_def REGISTER_OPERATION_def CVTable_Add_def Holder_Add_def
      GetTag_def init_world_def init_tags_def Let_def resize_def numeral_3_eq_3 numeral_2_eq_2)
  apply (auto simp add: fun_eq_iff)
  done

text \<open>
  C4, as amended. After any run of registrations from the initial state, for every triple
  the vtable and the instance holder have the same size, every slot of the instance holder
  that holds an instance has a non-null slot at the same tag in the vtable, and at the tag
  of every registered class both slots are non-null.
\<close>

theorem register_all_slots:
  assumes "w = register_all rs init_world"
  shows "length (vtables w k) = length (holders w k) \<and>
         (\<forall>t. t < length (holders w k) \<and> holders w k ! t \<noteq> None \<longrightarrow> vtables w k ! t \<noteq> None) \<and>
         (\<forall>r. r \<in> set rs \<longrightarrow> filled r w)"
  using paired_register_all [OF paired_init, of rs] filled_member [OF paired_init, of _ rs]
  unfolding paired_def assms by blast



theorem register_all_slots_witness:
  "1 < length (holders two_contexts (''Ctx'', Plain ''Base'', ''int'')) \<and>
   holders two_contexts (''Ctx'', Plain ''Base'', ''int'') ! 1 \<noteq> None \<and>
   vtables two_contexts (''Ctx'', Plain ''Base'', ''int'') ! 1 \<noteq> None \<and>
   length (vtables two_contexts (''Ctx'', Plain ''Base'', ''int'')) =
     length (holders two_contexts (''Ctx'', Plain ''Base'', ''int'')) \<and>
   Registration ''Ctx'' (Plain ''Base'') OpOnE ''int'' (Plain ''E'') \<in>
     set [Registration ''Ctx'' (Plain ''Base'') OpOnBase ''int'' (Plain ''Base''),
          Registration ''Ctx2'' (Plain ''Base'') OpOnD ''int'' (Plain ''D''),
          Registration ''Ctx'' (Plain ''Base'') OpOnE ''int'' (Plain ''E'')] \<and>
   filled (Registration ''Ctx'' (Plain ''Base'') OpOnE ''int'' (Plain ''E'')) two_contexts"
proof -
  note th = register_all_slots [OF two_contexts_def, of "(''Ctx'', Plain ''Base'', ''int'')"]
  have pre: "1 < length (holders two_contexts (''Ctx'', Plain ''Base'', ''int'')) \<and>
      holders two_contexts (''Ctx'', Plain ''Base'', ''int'') ! 1 \<noteq> None"
    by (simp add: two_contexts_eval)
  from th have "\<forall>t. t < length (holders two_contexts (''Ctx'', Plain ''Base'', ''int'')) \<and>
      holders two_contexts (''Ctx'', Plain ''Base'', ''int'') ! t \<noteq> None \<longrightarrow>
      vtables two_contexts (''Ctx'', Plain ''Base'', ''int'') ! t \<noteq> None"
    by blast
  from this [rule_format, of 1] pre
  have a: "vtables two_contexts (''Ctx'', Plain ''Base'', ''int'') ! 1 \<noteq> None"
    by blast
  from th have b: "length (vtables two_contexts (''Ctx'', Plain ''Base'', ''int'')) =
     length (holders two_contexts (''Ctx'', Plain ''Base'', ''int''))"
    by blast
  have mem: "Registration ''Ctx'' (Plain ''Base'') OpOnE ''int'' (Plain ''E'') \<in>
     set [Registration ''Ctx'' (Plain ''Base'') OpOnBase ''int'' (Plain ''Base''),
          Registration ''Ctx2'' (Plain ''Base'') OpOnD ''int'' (Plain ''D''),
          Registration ''Ctx'' (Plain ''Base'') OpOnE ''int'' (Plain ''E'')]"
    by simp
  from th have "\<forall>r. r \<in> set [Registration ''Ctx'' (Plain ''Base'') OpOnBase ''int'' (Plain ''Base''),
          Registration ''Ctx2'' (Plain ''Base'') OpOnD ''int'' (Plain ''D''),
          Registration ''Ctx'' (Plain ''Base'') OpOnE ''int'' (Plain ''E'')] \<longrightarrow> filled r two_contexts"
    by blast
  from this [rule_format, OF mem]
  have c: "filled (Registration ''Ctx'' (Plain ''Base'') OpOnE ''int'' (Plain ''E'')) two_contexts" .
  show ?thesis using pre a b mem c by blast
qed


text \<open>
  C4 as stated fails in the other direction. After the three registrations of
  \<open>two_contexts\<close>, slot 2 of the vtable of \<^verbatim>\<open>Ctx\<close> (the tag of \<^verbatim>\<open>D\<close>, registered only under
  \<^verbatim>\<open>Ctx2\<close>) holds the hook of the root's operation, copied when the table grew, and slot 2
  of the instance holder of \<^verbatim>\<open>Ctx\<close> is null.
\<close>

theorem fallback_copy_without_instance:
  "2 < length (vtables two_contexts (''Ctx'', Plain ''Base'', ''int'')) \<and>
   vtables two_contexts (''Ctx'', Plain ''Base'', ''int'') ! 2 = Some (Hook (Plain ''Base'') OpOnBase) \<and>
   2 < length (holders two_contexts (''Ctx'', Plain ''Base'', ''int'')) \<and>
   holders two_contexts (''Ctx'', Plain ''Base'', ''int'') ! 2 = None"
  by (simp add: two_contexts_eval)

section \<open>The root's callable as fallback\<close>

lemma inherits_Add:
  assumes inh: "inherits BASE r h n D (s, v)"
    and d: "d \<in> D" "add_const d \<noteq> add_const BASE"
  shows "inherits BASE r h n D (CVTable_Add d BASE f (s, v))"
proof -
  let ?t = "fst (GetTag d BASE s)"
  let ?s' = "fst (CVTable_Add d BASE f (s, v))"
  let ?v' = "snd (CVTable_Add d BASE f (s, v))"
  have ok: "tags_ok s BASE" and r: "Tag s (add_const BASE, add_const BASE) = r" "r \<noteq> 0"
    "r < length v" "v ! r = Some h" and n: "0 < n" "n \<le> length v"
    using inh by (simp_all add: inherits_def)
  have slots: "\<And>i. n \<le> i \<Longrightarrow> i < length v \<Longrightarrow>
      v ! i = Some h \<or> (\<exists>d\<in>D. Tag s (add_const d, add_const BASE) = i)"
    using inh unfolding inherits_def by simp
  have ok': "tags_ok ?s' BASE"
    using ok by (rule tags_ok_CVTable_Add)
  have r': "Tag ?s' (add_const BASE, add_const BASE) = r"
    using r(1,2) by (simp add: CVTable_Add_keeps)
  have t': "Tag ?s' (add_const d, add_const BASE) = ?t"
    by (rule CVTable_Add_Tag)
  have t0: "?t \<noteq> 0"
    using GetTag_pos [of d BASE s] by simp
  have tr: "?t \<noteq> r"
    using tags_ok_distinct [OF ok', of "add_const d" "add_const BASE"] t' r' t0 d(2) by simp
  have root: "GetTag BASE BASE (snd (GetTag d BASE s)) = (r, snd (GetTag d BASE s))"
    using r(1,2) by (intro GetTag_known) (simp_all add: GetTag_keeps)
  have v': "?v' = vput ?t (Some h) f v"
    using r(3,4) by (simp add: CVTable_Add_vec root)
  have a: "r < length ?v'" and b: "?v' ! r = Some h" and c: "n \<le> length ?v'"
    using r(3,4) n(2) tr by (simp_all add: v' length_vput vput_nth_old)
  have e: "?v' ! i = Some h \<or> (\<exists>d\<in>D. Tag ?s' (add_const d, add_const BASE) = i)"
    if "n \<le> i" and "i < length ?v'" for i
  proof (cases "i = ?t")
    case True
    then show ?thesis using d(1) t' by blast
  next
    case ne: False
    show ?thesis
    proof (cases "i < length v")
      case True
      have "?v' ! i = v ! i"
        using True ne by (simp add: v' vput_nth_old)
      moreover have "i \<noteq> 0"
        using that(1) n(1) by simp
      then have "\<And>x. Tag s (add_const x, add_const BASE) = i \<Longrightarrow>
          Tag ?s' (add_const x, add_const BASE) = i"
        by (simp add: CVTable_Add_keeps)
      ultimately show ?thesis
        using slots [OF that(1) True] by auto
    next
      case False
      then have "i < ?t"
        using that(2) ne by (simp add: v' length_vput)
      then have "?v' ! i = Some h"
        using False by (simp add: v' vput_nth_new)
      then show ?thesis by simp
    qed
  qed
  show ?thesis
    unfolding inherits_def
    using ok' r' r(2) a b n(1) c e by simp
qed

lemma inherits_Add_all:
  "inherits BASE r h n D st \<Longrightarrow>
   (\<forall>a\<in>set adds. fst a \<in> D \<and> add_const (fst a) \<noteq> add_const BASE) \<Longrightarrow>
   inherits BASE r h n D (CVTable_Add_all BASE adds st)"
proof (induction adds arbitrary: st)
  case Nil
  then show ?case by simp
next
  case (Cons a adds)
  have "inherits BASE r h n D (CVTable_Add (fst a) BASE (snd a) st)"
    using Cons.prems inherits_Add [of BASE r h n D "fst st" "snd st" "fst a" "snd a"] by simp
  then show ?case
    using Cons by simp
qed

lemma inherits_root:
  assumes "tags_ok s BASE"
  shows "inherits BASE (fst (GetTag BASE BASE s)) h
           (length (snd (CVTable_Add BASE BASE (Some h) (s, vec)))) D
           (CVTable_Add BASE BASE (Some h) (s, vec))"
proof -
  let ?st = "CVTable_Add BASE BASE (Some h) (s, vec)"
  let ?r = "fst (GetTag BASE BASE s)"
  obtain v where v: "snd ?st = vput ?r v (Some h) vec"
    by (simp add: CVTable_Add_vec)
  have a: "tags_ok (fst ?st) BASE"
    using assms by (rule tags_ok_CVTable_Add)
  have b: "Tag (fst ?st) (add_const BASE, add_const BASE) = ?r"
    by (rule CVTable_Add_Tag)
  have c: "?r \<noteq> 0"
    using GetTag_pos [of BASE BASE s] by simp
  have d: "?r < length (snd ?st)" "snd ?st ! ?r = Some h" "0 < length (snd ?st)"
    by (simp_all add: v length_vput vput_nth_same)
  show ?thesis
    unfolding inherits_def using a b c d by auto
qed

lemma inherits_lookup:
  assumes inh: "inherits BASE r h n D (s, v)"
    and D: "\<forall>d\<in>D. add_const d \<noteq> add_const C"
    and later: "n \<le> fst (GetTag C BASE s)"
  shows "CVTable_index BASE (fst (GetTag C BASE s)) (snd (GetTag C BASE s), v) =
           Inr (Some h, snd (GetTag C BASE s))"
proof -
  let ?c = "fst (GetTag C BASE s)"
  let ?s' = "snd (GetTag C BASE s)"
  have ok: "tags_ok s BASE" and r: "Tag s (add_const BASE, add_const BASE) = r" "r \<noteq> 0"
    "r < length v" "v ! r = Some h" and n: "0 < n" "n \<le> length v"
    using inh by (simp_all add: inherits_def)
  have slots: "\<And>i. n \<le> i \<Longrightarrow> i < length v \<Longrightarrow>
      v ! i = Some h \<or> (\<exists>d\<in>D. Tag s (add_const d, add_const BASE) = i)"
    using inh unfolding inherits_def by simp
  have ok': "tags_ok ?s' BASE"
    using ok by (rule tags_ok_GetTag)
  have c': "Tag ?s' (add_const C, add_const BASE) = ?c"
    by (rule GetTag_stores)
  have c0: "?c \<noteq> 0"
    using later n(1) by simp
  have root: "GetTag BASE BASE ?s' = (r, ?s')"
    using r(1,2) by (intro GetTag_known) (simp_all add: GetTag_keeps)
  show ?thesis
  proof (cases "?c < length v")
    case False
    then show ?thesis
      using r(3,4) by (simp add: CVTable_index_outside root)
  next
    case True
    have "v ! ?c = Some h"
    proof (rule ccontr)
      assume "v ! ?c \<noteq> Some h"
      then obtain d where d: "d \<in> D" "Tag s (add_const d, add_const BASE) = ?c"
        using slots [OF later True] by blast
      then have "Tag ?s' (add_const d, add_const BASE) = ?c"
        using c0 by (simp add: GetTag_keeps)
      then have "add_const d = add_const C"
        using tags_ok_distinct [OF ok', of "add_const d" "add_const C"] c' c0 by auto
      then show False using D d(1) by blast
    qed
    then show ?thesis
      using True by (simp add: CVTable_index_inside)
  qed
qed

lemma root_added_later:
  assumes ok: "tags_ok s BASE" and ne: "add_const C \<noteq> add_const BASE"
    and ex: "fst (GetTag C BASE s) < length vec"
  shows "CVTable_index BASE (fst (GetTag C BASE s))
           (CVTable_Add BASE BASE (Some h) (snd (GetTag C BASE s), vec)) =
         Inr (vec ! fst (GetTag C BASE s),
              fst (CVTable_Add BASE BASE (Some h) (snd (GetTag C BASE s), vec)))"
proof -
  let ?c = "fst (GetTag C BASE s)"
  let ?s' = "snd (GetTag C BASE s)"
  let ?st = "CVTable_Add BASE BASE (Some h) (?s', vec)"
  let ?r = "fst (GetTag BASE BASE ?s')"
  have c0: "?c \<noteq> 0"
    using GetTag_pos [of C BASE s] by simp
  have ok': "tags_ok (fst ?st) BASE"
    using ok by (simp add: tags_ok_GetTag tags_ok_CVTable_Add)
  have c': "Tag (fst ?st) (add_const C, add_const BASE) = ?c"
    using c0 by (simp add: CVTable_Add_keeps GetTag_stores)
  have r': "Tag (fst ?st) (add_const BASE, add_const BASE) = ?r"
    by (rule CVTable_Add_Tag)
  have cr: "?c \<noteq> ?r"
    using tags_ok_distinct [OF ok', of "add_const C" "add_const BASE"] c' r' c0 ne by simp
  have "?c < length (snd ?st)" and "snd ?st ! ?c = vec ! ?c"
    using ex cr by (simp_all add: CVTable_Add_vec length_vput vput_nth_old)
  then show ?thesis
    using CVTable_index_inside [of ?c "snd ?st" BASE "fst ?st"] by simp
qed

text \<open>
  The table read when the tags are in order. In a state whose tags for the root are in
  order, let a callable \<open>h\<close> be added for the root, and then callables for any classes other
  than the root and a class \<open>C\<close>. If the slot of \<open>C\<close> was not in the table when the root's
  callable was added, a later read of the table at the tag of \<open>C\<close> yields \<open>h\<close>. Conversely, if
  the slot of a class \<open>C'\<close> is in the table when the root's callable is added, the read of
  the table at the tag of \<open>C'\<close> yields what the slot held before, not \<open>h\<close>.
\<close>

theorem root_fallback_in_table:
  assumes "tags_ok s BASE"
    and "st1 = CVTable_Add BASE BASE (Some h) (s, vec)"
    and "stn = CVTable_Add_all BASE adds st1"
  shows "((\<forall>a\<in>set adds. add_const (fst a) \<noteq> add_const C \<and> add_const (fst a) \<noteq> add_const BASE) \<and>
          length (snd st1) \<le> fst (GetTag C BASE (fst stn)) \<longrightarrow>
          CVTable_index BASE (fst (GetTag C BASE (fst stn))) (snd (GetTag C BASE (fst stn)), snd stn) =
            Inr (Some h, snd (GetTag C BASE (fst stn)))) \<and>
         (add_const C' \<noteq> add_const BASE \<and> fst (GetTag C' BASE s) < length vec \<longrightarrow>
          CVTable_index BASE (fst (GetTag C' BASE s))
            (CVTable_Add BASE BASE (Some h) (snd (GetTag C' BASE s), vec)) =
            Inr (vec ! fst (GetTag C' BASE s),
                 fst (CVTable_Add BASE BASE (Some h) (snd (GetTag C' BASE s), vec))))"
proof (intro conjI impI)
  assume a: "(\<forall>a\<in>set adds. add_const (fst a) \<noteq> add_const C \<and> add_const (fst a) \<noteq> add_const BASE) \<and>
          length (snd st1) \<le> fst (GetTag C BASE (fst stn))"
  let ?D = "fst ` set adds"
  have "inherits BASE (fst (GetTag BASE BASE s)) h (length (snd st1)) ?D st1"
    unfolding assms(2) using assms(1) by (rule inherits_root)
  then have "inherits BASE (fst (GetTag BASE BASE s)) h (length (snd st1)) ?D stn"
    unfolding assms(3) using a by (intro inherits_Add_all) simp_all
  then have "inherits BASE (fst (GetTag BASE BASE s)) h (length (snd st1)) ?D (fst stn, snd stn)"
    by simp
  then show "CVTable_index BASE (fst (GetTag C BASE (fst stn))) (snd (GetTag C BASE (fst stn)), snd stn) =
            Inr (Some h, snd (GetTag C BASE (fst stn)))"
    using a by (intro inherits_lookup [where D = ?D]) auto
next
  assume "add_const C' \<noteq> add_const BASE \<and> fst (GetTag C' BASE s) < length vec"
  then show "CVTable_index BASE (fst (GetTag C' BASE s))
            (CVTable_Add BASE BASE (Some h) (snd (GetTag C' BASE s), vec)) =
            Inr (vec ! fst (GetTag C' BASE s),
                 fst (CVTable_Add BASE BASE (Some h) (snd (GetTag C' BASE s), vec)))"
    using assms(1) by (intro root_added_later) simp_all
qed



lemma tags_three_eval:
  "tags_three =
     \<lparr>Count = (\<lambda>b. 0)(Plain ''CEntity'' := 3),
      Tag = (\<lambda>h. 0)((Const ''CEntity'', Const ''CEntity'') := 1,
                     (Const ''CTestEntity1'', Const ''CEntity'') := 2,
                     (Const ''CTestEntity2'', Const ''CEntity'') := 3)\<rparr>"
  by (simp add: tags_three_def tags_root_first_eval GetTag_def Let_def numeral_3_eq_3 numeral_2_eq_2)

lemma tags_ok_tags_three: "tags_ok tags_three (Plain ''CEntity'')"
  by (simp add: tags_three_def tags_root_first_def tags_ok_GetTag tags_ok_init)

theorem root_fallback_in_table_witness:
  "tags_ok tags_three (Plain ''CEntity'') \<and>
   snd (CVTable_Add_all (Plain ''CEntity'') [(Plain ''CTestEntity3'', Some (8::nat))]
     (CVTable_Add (Plain ''CEntity'') (Plain ''CEntity'') (Some 7) (tags_three, [None, None, Some 5]))) =
     [None, Some 7, Some 5, Some 7, Some 8] \<and>
   fst (GetTag (Plain ''CTestEntity2'') (Plain ''CEntity'')
     (fst (CVTable_Add_all (Plain ''CEntity'') [(Plain ''CTestEntity3'', Some (8::nat))]
       (CVTable_Add (Plain ''CEntity'') (Plain ''CEntity'') (Some 7) (tags_three, [None, None, Some 5]))))) = 3 \<and>
   (case CVTable_index (Plain ''CEntity'') 3
      (snd (GetTag (Plain ''CTestEntity2'') (Plain ''CEntity'')
         (fst (CVTable_Add_all (Plain ''CEntity'') [(Plain ''CTestEntity3'', Some (8::nat))]
           (CVTable_Add (Plain ''CEntity'') (Plain ''CEntity'') (Some 7) (tags_three, [None, None, Some 5]))))),
       [None, Some (7::nat), Some 5, Some 7, Some 8])
    of Inl e \<Rightarrow> None | Inr x \<Rightarrow> fst x) = Some 7 \<and>
   fst (GetTag (Plain ''CTestEntity1'') (Plain ''CEntity'') tags_three) = 2 \<and>
   (case CVTable_index (Plain ''CEntity'') 2
      (CVTable_Add (Plain ''CEntity'') (Plain ''CEntity'') (Some 7)
        (snd (GetTag (Plain ''CTestEntity1'') (Plain ''CEntity'') tags_three), [None, None, Some (5::nat)]))
    of Inl e \<Rightarrow> None | Inr x \<Rightarrow> fst x) = Some 5"
proof -
  let ?CE = "Plain ''CEntity''"
  let ?vec = "[None, None, Some (5::nat)]"
  let ?adds = "[(Plain ''CTestEntity3'', Some (8::nat))]"
  let ?st1 = "CVTable_Add ?CE ?CE (Some 7) (tags_three, ?vec)"
  let ?stn = "CVTable_Add_all ?CE ?adds ?st1"
  have st1: "?st1 = (tags_three, [None, Some 7, Some 5])"
    by (simp add: CVTable_Add_def GetTag_def tags_three_eval Let_def)
  have stn: "snd ?stn = [None, Some 7, Some 5, Some 7, Some 8]"
    by (simp add: st1)
      (simp add: CVTable_Add_def GetTag_def tags_three_eval Let_def resize_def numeral_2_eq_2)
  have tn: "fst (GetTag (Plain ''CTestEntity2'') ?CE (fst ?stn)) = 3"
    by (simp add: st1) (simp add: CVTable_Add_def GetTag_def tags_three_eval Let_def resize_def)
  have t1: "fst (GetTag (Plain ''CTestEntity1'') ?CE tags_three) = 2"
    by (simp add: GetTag_def tags_three_eval Let_def)
  note th = root_fallback_in_table [OF tags_ok_tags_three refl refl, where h = 7 and vec = ?vec
      and adds = ?adds and C = "Plain ''CTestEntity2''" and C' = "Plain ''CTestEntity1''"]
  have p1: "(\<forall>a\<in>set ?adds. add_const (fst a) \<noteq> add_const (Plain ''CTestEntity2'') \<and>
        add_const (fst a) \<noteq> add_const ?CE) \<and>
      length (snd ?st1) \<le> fst (GetTag (Plain ''CTestEntity2'') ?CE (fst ?stn))"
    unfolding tn by (simp add: st1)
  have p2: "add_const (Plain ''CTestEntity1'') \<noteq> add_const ?CE \<and>
      fst (GetTag (Plain ''CTestEntity1'') ?CE tags_three) < length ?vec"
    by (simp add: t1)
  from th p1 have c1: "CVTable_index ?CE (fst (GetTag (Plain ''CTestEntity2'') ?CE (fst ?stn)))
       (snd (GetTag (Plain ''CTestEntity2'') ?CE (fst ?stn)), snd ?stn) =
       Inr (Some 7, snd (GetTag (Plain ''CTestEntity2'') ?CE (fst ?stn)))"
    by blast
  from th p2 have c2: "CVTable_index ?CE (fst (GetTag (Plain ''CTestEntity1'') ?CE tags_three))
       (CVTable_Add ?CE ?CE (Some 7) (snd (GetTag (Plain ''CTestEntity1'') ?CE tags_three), ?vec)) =
       Inr (?vec ! fst (GetTag (Plain ''CTestEntity1'') ?CE tags_three),
            fst (CVTable_Add ?CE ?CE (Some 7) (snd (GetTag (Plain ''CTestEntity1'') ?CE tags_three), ?vec)))"
    by blast
  show ?thesis
    using c1 [unfolded tn stn] c2 [unfolded t1] tags_ok_tags_three stn tn t1 by simp
qed


lemma root_registered_eval:
  "root_registered =
     \<lparr>tagst = \<lparr>Count = (\<lambda>b. 0)(Plain ''Base'' := 1),
                Tag = (\<lambda>h. 0)((Const ''Base'', Const ''Base'') := 1)\<rparr>,
      vtables = (\<lambda>k. [])((''Ctx'', Plain ''Base'', ''int'') :=
                  [None, Some (Hook (Plain ''Base'') OpOnBase)]),
      holders = (\<lambda>k. [])((''Ctx'', Plain ''Base'', ''int'') := [None, Some OpOnBase])\<rparr>"
  by (simp add: root_registered_def REGISTER_OPERATION_def CVTable_Add_def Holder_Add_def
      GetTag_def init_world_def init_tags_def Let_def resize_def)

lemma root_then_d_eval:
  "root_then_d =
     \<lparr>tagst = \<lparr>Count = (\<lambda>b. 0)(Const ''Base'' := 2, Plain ''Base'' := 1),
                Tag = (\<lambda>h. 0)((Const ''Base'', Const ''Base'') := 1,
                               (Const ''C'', Const ''Base'') := 2,
                               (Const ''D'', Const ''Base'') := 1)\<rparr>,
      vtables = (\<lambda>k. [])((''Ctx'', Plain ''Base'', ''int'') :=
                  [None, Some (Hook (Plain ''D'') OpOnD)]),
      holders = (\<lambda>k. [])((''Ctx'', Plain ''Base'', ''int'') := [None, Some OpOnD])\<rparr>"
  by (simp add: root_then_d_def holders_of_root_and_c_initialised_def STagHolder_init_def
      REGISTER_OPERATION_def CVTable_Add_def Holder_Add_def
      GetTag_def init_world_def init_tags_def Let_def resize_def numeral_2_eq_2)

text \<open>
  C3. Dispatch on a class that should inherit the root's handler does not invoke it in a
  defined way. With the root's operation (returning 0) registered first and nothing for
  \<^verbatim>\<open>C\<close>, the table read for an operand of class \<^verbatim>\<open>C\<close> yields the root's hook, but the instance
  holder yields null at the tag of \<^verbatim>\<open>C\<close>, and \<^verbatim>\<open>CallOperation\<close> calls the hook on a null
  operation object. The same happens for an operand of class \<^verbatim>\<open>D\<close> under \<^verbatim>\<open>Ctx\<close> in
  \<open>two_contexts\<close>, where the slot of \<^verbatim>\<open>D\<close> is in the table and holds a copy of the root's
  hook. And when the holders of \<^verbatim>\<open>Base\<close> and \<^verbatim>\<open>C\<close> were initialised first, the registration of
  \<^verbatim>\<open>D\<close> after the root's takes the root's tag, and the table read for \<^verbatim>\<open>C\<close> yields the hook
  of \<^verbatim>\<open>D\<close>, not the root's.
\<close>

theorem CallOperation_root_fallback:
  "CVTable_index (Plain ''Base'') 2 (snd (GetTag (cls operand_c) (Plain ''Base'') (tagst root_registered)),
      vtables root_registered (''Ctx'', Plain ''Base'', ''int'')) =
     Inr (Some (Hook (Plain ''Base'') OpOnBase),
          snd (GetTag (cls operand_c) (Plain ''Base'') (tagst root_registered))) \<and>
   Holder_index 2 (holders root_registered (''Ctx'', Plain ''Base'', ''int'')) = None \<and>
   CallOperation example_ApplyTo ''Ctx'' (Plain ''Base'') ''int'' operand_c root_registered = Inl NullCall \<and>
   CallOperation example_ApplyTo ''Ctx'' (Plain ''Base'') ''int'' operand_d two_contexts = Inl NullCall \<and>
   CVTable_index (Plain ''Base'') 2 (snd (GetTag (cls operand_c) (Plain ''Base'') (tagst root_then_d)),
      vtables root_then_d (''Ctx'', Plain ''Base'', ''int'')) =
     Inr (Some (Hook (Plain ''D'') OpOnD),
          snd (GetTag (cls operand_c) (Plain ''Base'') (tagst root_then_d))) \<and>
   CallOperation example_ApplyTo ''Ctx'' (Plain ''Base'') ''int'' operand_c root_then_d = Inl NullCall"
  by (simp add: CallOperation_def CVTable_index_def Holder_index_def Hook_call_def GetTag_def
      root_registered_eval two_contexts_eval root_then_d_eval operand_c_def operand_d_def Let_def)

end
